theory Spec2Isabelle
  imports Complex_Main "HOL-Library.Word"
begin

section \<open>Seismic P-wave detector: shallow embedding of \<open>seismic_detector.hpp\<close>\<close>

text \<open>
  Conventions of the embedding.
  \<^item> \<open>float\<close> is modelled by \<open>real\<close>: every result is about exact arithmetic, the
    decimal literals of the source are taken at their decimal value.
  \<^item> \<open>uint32_t\<close> and \<open>uint64_t\<close> members of the detector and of \<open>Config\<close> are
    \<open>32 word\<close> and \<open>64 word\<close>, so \<open>++\<close> wraps as in C++.
  \<^item> The index fields of \<open>Ring\<close> are \<open>nat\<close>: they are bounded by \<open>MAX_N \<le> 5000\<close>, so
    no index expression of the source can reach \<open>2^32\<close>.
  \<^item> A member \<open>x_\<close> of the source is named \<open>m_x\<close> (detector) or \<open>r_x\<close> (ring):
    a trailing underscore is not a legal name here.
  \<^item> The two callbacks are modelled by the list of calls a function makes, in order;
    \<open>m_on_ev\<close> and \<open>m_on_dbg\<close> say whether the callback object is non-empty.
\<close>

subsection \<open>Configuration, events, telemetry\<close>

record Config =
  sample_rate_hz :: real
  hp_alpha :: real
  sta_window :: "32 word"
  lta_window :: "32 word"
  sta_lta_trigger :: real
  sta_lta_detrigger :: real
  min_amplitude_g :: real
  min_sustained :: "32 word"
  axis_coherence_min :: real
  cooldown :: "32 word"
  pwave_freq_min :: real
  pwave_freq_max :: real
  calib_window :: "32 word"
  adaptive_trig_min :: real
  adaptive_trig_max :: real
  periodicity_thresh :: real

definition default_config :: Config where
  "default_config =
     \<lparr> sample_rate_hz = 50, hp_alpha = 0.98, sta_window = 25, lta_window = 500,
       sta_lta_trigger = 4.5, sta_lta_detrigger = 1.5, min_amplitude_g = 0.012,
       min_sustained = 15, axis_coherence_min = 0.4, cooldown = 500,
       pwave_freq_min = 1, pwave_freq_max = 15, calib_window = 2500,
       adaptive_trig_min = 3.5, adaptive_trig_max = 8, periodicity_thresh = 0.6 \<rparr>"

definition dt :: "Config \<Rightarrow> real" where
  "dt c = 1 / sample_rate_hz c"

datatype AlertLevel = AL_NONE | TREMOR | MODERATE | SEVERE | CRITICAL

datatype RejectCode = RC_NONE | AXIS_COHERENCE | FREQUENCY | PERIODICITY | ENERGY_DIST

datatype S = IDLE | CONFIRM | TRIGGERED

record SeismicEvent =
  level :: AlertLevel
  peak_g :: real
  sta_lta :: real
  freq_hz :: real
  time_ms :: "64 word"
  duration :: "32 word"

record DebugTelemetry =
  raw_mag :: real
  filt_mag :: real
  sta :: real
  lta :: real
  ratio :: real
  baseline_var :: real
  adaptive_trigger :: real
  state :: S
  reject :: RejectCode
  ts :: "64 word"

datatype callback = OnEvent SeismicEvent | OnDebug DebugTelemetry

fun is_event :: "callback \<Rightarrow> bool" where
  "is_event (OnEvent e) = True"
| "is_event (OnDebug t) = False"

fun is_debug :: "callback \<Rightarrow> bool" where
  "is_debug (OnEvent e) = False"
| "is_debug (OnDebug t) = True"

subsection \<open>Filters and gravity estimator\<close>

record HighPassState =
  prev_raw :: real
  prev_filt :: real

definition HighPassState_new :: HighPassState where
  "HighPassState_new = \<lparr> prev_raw = 0, prev_filt = 0 \<rparr>"

definition HighPassState_process :: "real \<Rightarrow> real \<Rightarrow> HighPassState \<Rightarrow> HighPassState \<times> real" where
  "HighPassState_process raw a st =
     (let f = a * (prev_filt st + raw - prev_raw st)
      in (\<lparr> prev_raw = raw, prev_filt = f \<rparr>, f))"

record Biquad =
  b0 :: real
  b1 :: real
  b2 :: real
  a1 :: real
  a2 :: real
  w1 :: real
  w2 :: real

definition Biquad_process :: "real \<Rightarrow> Biquad \<Rightarrow> Biquad \<times> real" where
  "Biquad_process x q =
     (let y = b0 q * x + w1 q;
          w1' = b1 q * x - a1 q * y + w2 q;
          w2' = b2 q * x - a2 q * y
      in (q\<lparr> w1 := w1', w2 := w2' \<rparr>, y))"

definition Biquad_reset :: "Biquad \<Rightarrow> Biquad" where
  "Biquad_reset q = q\<lparr> w1 := 0, w2 := 0 \<rparr>"

record BandPassFilter =
  hp :: Biquad
  lp :: Biquad

definition BandPassFilter_new :: BandPassFilter where
  "BandPassFilter_new =
     \<lparr> hp = \<lparr> b0 = 0.9429, b1 = -1.8858, b2 = 0.9429, a1 = -1.8805, a2 = 0.8853,
              w1 = 0, w2 = 0 \<rparr>,
       lp = \<lparr> b0 = 0.2929, b1 = 0.5858, b2 = 0.2929, a1 = 0, a2 = 0.1716,
              w1 = 0, w2 = 0 \<rparr> \<rparr>"

definition BandPassFilter_process :: "real \<Rightarrow> BandPassFilter \<Rightarrow> BandPassFilter \<times> real" where
  "BandPassFilter_process x f =
     (let (h', y1) = Biquad_process x (hp f);
          (l', y2) = Biquad_process y1 (lp f)
      in (\<lparr> hp = h', lp = l' \<rparr>, y2))"

definition BandPassFilter_reset :: "BandPassFilter \<Rightarrow> BandPassFilter" where
  "BandPassFilter_reset f = \<lparr> hp = Biquad_reset (hp f), lp = Biquad_reset (lp f) \<rparr>"

record GravityEstimator =
  gx :: real
  gy :: real
  gz :: real

definition kAlpha :: real where
  "kAlpha = 0.01245"

definition GravityEstimator_new :: GravityEstimator where
  "GravityEstimator_new = \<lparr> gx = 0, gy = 0, gz = -1 \<rparr>"

definition GravityEstimator_update :: "real \<Rightarrow> real \<Rightarrow> real \<Rightarrow> GravityEstimator \<Rightarrow> GravityEstimator" where
  "GravityEstimator_update ax ay az g =
     \<lparr> gx = gx g + kAlpha * (ax - gx g),
       gy = gy g + kAlpha * (ay - gy g),
       gz = gz g + kAlpha * (az - gz g) \<rparr>"

definition linX :: "GravityEstimator \<Rightarrow> real \<Rightarrow> real" where
  "linX g ax = ax - gx g"

definition linY :: "GravityEstimator \<Rightarrow> real \<Rightarrow> real" where
  "linY g ay = ay - gy g"

definition linZ :: "GravityEstimator \<Rightarrow> real \<Rightarrow> real" where
  "linZ g az = az - gz g"

subsection \<open>Ring buffer with running sums\<close>

text \<open>
  \<open>Ring<T, MAX_N>\<close>: the array \<open>b_\<close> is a function on indices (only indices below
  \<open>cap_ \<le> MAX_N\<close> are ever used), the template parameter \<open>MAX_N\<close> is an argument of
  the two operations that read it.
\<close>

record Ring =
  r_b :: "nat \<Rightarrow> real"
  r_h :: nat
  r_n :: nat
  r_cap :: nat
  r_s :: real
  r_sq :: real

definition Ring_new :: "nat \<Rightarrow> Ring" where
  "Ring_new MAX_N = \<lparr> r_b = (\<lambda>i. 0), r_h = 0, r_n = 0, r_cap = MAX_N, r_s = 0, r_sq = 0 \<rparr>"

definition Ring_reset :: "Ring \<Rightarrow> Ring" where
  "Ring_reset r = r\<lparr> r_h := 0, r_n := 0, r_s := 0, r_sq := 0, r_b := (\<lambda>i. 0) \<rparr>"

definition set_cap :: "nat \<Rightarrow> nat \<Rightarrow> Ring \<Rightarrow> Ring" where
  "set_cap MAX_N c r =
     Ring_reset (r\<lparr> r_cap := (if c > 0 \<and> c \<le> MAX_N then c else MAX_N) \<rparr>)"

definition Ring_push :: "real \<Rightarrow> Ring \<Rightarrow> Ring" where
  "Ring_push v r =
     (let r1 = (if r_n r = r_cap r
                then r\<lparr> r_s := r_s r - r_b r (r_h r),
                        r_sq := r_sq r - r_b r (r_h r) * r_b r (r_h r) \<rparr>
                else r\<lparr> r_n := r_n r + 1 \<rparr>)
      in r1\<lparr> r_b := (r_b r1)(r_h r1 := v),
             r_s := r_s r1 + v,
             r_sq := r_sq r1 + v * v,
             r_h := (r_h r1 + 1) mod r_cap r1 \<rparr>)"

definition Ring_avg :: "Ring \<Rightarrow> real" where
  "Ring_avg r = (if r_n r > 0 then r_s r / real (r_n r) else 0)"

definition Ring_var :: "Ring \<Rightarrow> real" where
  "Ring_var r =
     (if r_n r < 2 then 0
      else let m = Ring_avg r; v = r_sq r / real (r_n r) - m * m
           in if v > 0 then v else 0)"

definition Ring_full :: "Ring \<Rightarrow> bool" where
  "Ring_full r = (r_n r = r_cap r)"

definition Ring_size :: "Ring \<Rightarrow> nat" where
  "Ring_size r = r_n r"

definition Ring_at :: "Ring \<Rightarrow> nat \<Rightarrow> real" where
  "Ring_at r i = (if i < r_n r then r_b r ((r_h r + r_cap r - r_n r + i) mod r_cap r) else 0)"

subsection \<open>The detector\<close>

record SeismicDetector =
  m_cfg :: Config
  m_hx :: HighPassState
  m_hy :: HighPassState
  m_hz :: HighPassState
  m_bpx :: BandPassFilter
  m_bpy :: BandPassFilter
  m_bpz :: BandPassFilter
  m_grav :: GravityEstimator
  m_sta :: Ring
  m_lta :: Ring
  m_cal :: Ring
  m_per :: Ring
  m_st :: S
  m_sc :: "32 word"
  m_dur :: "32 word"
  m_cd :: "32 word"
  m_zc :: "32 word"
  m_pk :: real
  m_t0 :: "64 word"
  m_ps :: bool
  m_ap :: "real \<times> real \<times> real"
  m_ae :: "real \<times> real \<times> real"
  m_total :: "64 word"
  m_lr :: RejectCode
  m_on_ev :: bool
  m_on_dbg :: bool

text \<open>
  \<open>uint32_t(x)\<close> for a float \<open>x\<close> truncates towards zero; it is defined in C++ only for
  \<open>-1 < x < 2^32\<close>, and the embedding is meant for that range.
\<close>

definition u32_of_float :: "real \<Rightarrow> nat" where
  "u32_of_float x = nat \<lfloor>x\<rfloor>"

definition apply_cfg :: "SeismicDetector \<Rightarrow> SeismicDetector" where
  "apply_cfg d =
     d\<lparr> m_sta := set_cap 100 (unat (sta_window (m_cfg d))) (m_sta d),
        m_lta := set_cap 1000 (unat (lta_window (m_cfg d))) (m_lta d),
        m_cal := set_cap 5000 (unat (calib_window (m_cfg d))) (m_cal d),
        m_per := set_cap 200 (u32_of_float (4 * sample_rate_hz (m_cfg d))) (m_per d) \<rparr>"

definition SeismicDetector_new :: "bool \<Rightarrow> bool \<Rightarrow> SeismicDetector" where
  "SeismicDetector_new on_ev on_dbg =
     apply_cfg
       \<lparr> m_cfg = default_config,
         m_hx = HighPassState_new, m_hy = HighPassState_new, m_hz = HighPassState_new,
         m_bpx = BandPassFilter_new, m_bpy = BandPassFilter_new, m_bpz = BandPassFilter_new,
         m_grav = GravityEstimator_new,
         m_sta = Ring_new 100, m_lta = Ring_new 1000,
         m_cal = Ring_new 5000, m_per = Ring_new 200,
         m_st = IDLE, m_sc = 0, m_dur = 0, m_cd = 0, m_zc = 0,
         m_pk = 0, m_t0 = 0, m_ps = False,
         m_ap = (0, 0, 0), m_ae = (0, 0, 0),
         m_total = 0, m_lr = RC_NONE,
         m_on_ev = on_ev, m_on_dbg = on_dbg \<rparr>"

definition update_config :: "Config \<Rightarrow> SeismicDetector \<Rightarrow> SeismicDetector" where
  "update_config c d = apply_cfg (d\<lparr> m_cfg := c \<rparr>)"

definition config :: "SeismicDetector \<Rightarrow> Config" where
  "config d = m_cfg d"

definition max3 :: "real \<times> real \<times> real \<Rightarrow> real" where
  "max3 t = (case t of (x, y, z) \<Rightarrow> max (max x y) z)"

definition min3 :: "real \<times> real \<times> real \<Rightarrow> real" where
  "min3 t = (case t of (x, y, z) \<Rightarrow> min (min x y) z)"

definition autocorr :: "SeismicDetector \<Rightarrow> real" where
  "autocorr d =
     (let n = Ring_size (m_per d) in
      if n < 60 then 0
      else
        let m = (\<Sum>i\<leftarrow>[0..<n]. Ring_at (m_per d) i) / real n;
            v = (\<Sum>i\<leftarrow>[0..<n]. (Ring_at (m_per d) i - m) * (Ring_at (m_per d) i - m)) in
        if v < 1 / 10 ^ 10 then 0
        else
          let l0 = u32_of_float (sample_rate_hz (m_cfg d) / 2.5);
              l1 = u32_of_float (sample_rate_hz (m_cfg d) / 1.5)
          in fold (\<lambda>lag best.
                     max best
                       ((\<Sum>i\<leftarrow>[0..<n - lag].
                            (Ring_at (m_per d) i - m) * (Ring_at (m_per d) (i + lag) - m)) / v))
                  [l0..<min (Suc l1) (n div 2)] 0)"

definition check_reject :: "SeismicDetector \<Rightarrow> RejectCode" where
  "check_reject d =
     (let mx = max3 (m_ap d); mn = min3 (m_ap d) in
      if mx > 0 \<and> mn / mx < axis_coherence_min (m_cfg d) then AXIS_COHERENCE
      else
        let ds = real (unat (m_sc d)) * dt (m_cfg d) in
        if ds > 0 \<and> (real (unat (m_zc d)) / (2 * ds) < pwave_freq_min (m_cfg d)
                     \<or> real (unat (m_zc d)) / (2 * ds) > pwave_freq_max (m_cfg d))
        then FREQUENCY
        else if Ring_full (m_per d) \<and> autocorr d > periodicity_thresh (m_cfg d)
        then PERIODICITY
        else
          let te = (case m_ae d of (e0, e1, e2) \<Rightarrow> e0 + e1 + e2) in
          if te > 0 \<and> max3 (m_ae d) / te > 0.85 then ENERGY_DIST
          else RC_NONE)"

definition severity :: "real \<Rightarrow> AlertLevel" where
  "severity g =
     (if g \<ge> 0.40 then CRITICAL
      else if g \<ge> 0.15 then SEVERE
      else if g \<ge> 0.05 then MODERATE
      else if g \<ge> 0.01 then TREMOR
      else AL_NONE)"

definition fire :: "64 word \<Rightarrow> real \<Rightarrow> SeismicDetector \<Rightarrow> callback list" where
  "fire t r d =
     (let ds = real (unat (m_sc d)) * dt (m_cfg d);
          f = (if ds > 0 then real (unat (m_zc d)) / (2 * ds) else 0)
      in if m_on_ev d
         then [OnEvent \<lparr> level = severity (m_pk d), peak_g = m_pk d, sta_lta = r,
                         freq_hz = f, time_ms = m_t0 d, duration = m_dur d \<rparr>]
         else [])"

definition emit_dbg ::
  "real \<Rightarrow> real \<Rightarrow> real \<Rightarrow> real \<Rightarrow> real \<Rightarrow> real \<Rightarrow> real \<Rightarrow> 64 word \<Rightarrow> SeismicDetector
     \<Rightarrow> callback list" where
  "emit_dbg rm fm s l r bv thr t d =
     (if m_on_dbg d
      then [OnDebug \<lparr> raw_mag = rm, filt_mag = fm, sta = s, lta = l, ratio = r,
                      baseline_var = bv, adaptive_trigger = thr, state = m_st d,
                      reject = m_lr d, ts = t \<rparr>]
      else [])"

definition reset_st :: "SeismicDetector \<Rightarrow> SeismicDetector" where
  "reset_st d =
     d\<lparr> m_st := IDLE, m_sc := 0, m_dur := 0, m_pk := 0, m_t0 := 0,
        m_cd := cooldown (m_cfg d), m_zc := 0, m_ps := False,
        m_ap := (0, 0, 0), m_ae := (0, 0, 0), m_lr := RC_NONE \<rparr>"

definition reset :: "SeismicDetector \<Rightarrow> SeismicDetector" where
  "reset d =
     (reset_st
        (d\<lparr> m_hx := HighPassState_new, m_hy := HighPassState_new, m_hz := HighPassState_new,
            m_bpx := BandPassFilter_reset (m_bpx d),
            m_bpy := BandPassFilter_reset (m_bpy d),
            m_bpz := BandPassFilter_reset (m_bpz d),
            m_grav := GravityEstimator_new,
            m_sta := Ring_reset (m_sta d), m_lta := Ring_reset (m_lta d),
            m_cal := Ring_reset (m_cal d), m_per := Ring_reset (m_per d) \<rparr>))
     \<lparr> m_total := 0 \<rparr>"

text \<open>\<open>std::clamp(v, lo, hi)\<close>, as the standard library computes it.\<close>

definition clamp :: "real \<Rightarrow> real \<Rightarrow> real \<Rightarrow> real" where
  "clamp v lo hi = (if v < lo then lo else if hi < v then hi else v)"

subsection \<open>\<open>process_sample\<close>\<close>

text \<open>Lines 168 to 183: gravity removal, band-pass and polish high-pass on each axis.\<close>

definition filter_axes ::
  "real \<Rightarrow> real \<Rightarrow> real \<Rightarrow> SeismicDetector \<Rightarrow> SeismicDetector \<times> real \<times> real \<times> real" where
  "filter_axes ax_r ay_r az_r d =
     (let g = GravityEstimator_update ax_r ay_r az_r (m_grav d);
          (bx, ax1) = BandPassFilter_process (linX g ax_r) (m_bpx d);
          (by, ay1) = BandPassFilter_process (linY g ay_r) (m_bpy d);
          (bz, az1) = BandPassFilter_process (linZ g az_r) (m_bpz d);
          (hx, ax) = HighPassState_process ax1 (hp_alpha (m_cfg d)) (m_hx d);
          (hy, ay) = HighPassState_process ay1 (hp_alpha (m_cfg d)) (m_hy d);
          (hz, az) = HighPassState_process az1 (hp_alpha (m_cfg d)) (m_hz d)
      in (d\<lparr> m_grav := g, m_bpx := bx, m_bpy := by, m_bpz := bz,
              m_hx := hx, m_hy := hy, m_hz := hz \<rparr>, ax, ay, az))"

text \<open>Line 185: the magnitude of the filtered sample.\<close>

definition magnitude :: "real \<Rightarrow> real \<Rightarrow> real \<Rightarrow> real" where
  "magnitude ax ay az = sqrt (ax * ax + ay * ay + az * az)"

text \<open>Line 187: the four window accumulators take the magnitude.\<close>

definition accumulate :: "real \<Rightarrow> SeismicDetector \<Rightarrow> SeismicDetector" where
  "accumulate mag d =
     d\<lparr> m_sta := Ring_push mag (m_sta d), m_lta := Ring_push mag (m_lta d),
        m_cal := Ring_push mag (m_cal d), m_per := Ring_push mag (m_per d) \<rparr>"

text \<open>Lines 191 to 193: the dynamic trigger threshold \<open>at\<close>.\<close>

definition adaptive_at :: "SeismicDetector \<Rightarrow> real" where
  "adaptive_at d =
     clamp (sta_lta_trigger (m_cfg d) + sqrt (Ring_var (m_cal d)) * 100)
           (adaptive_trig_min (m_cfg d)) (adaptive_trig_max (m_cfg d))"

text \<open>Lines 211 to 216: the bookkeeping of one more sustained sample in \<open>CONFIRM\<close>.\<close>

definition confirm_track :: "real \<Rightarrow> real \<Rightarrow> real \<Rightarrow> real \<Rightarrow> SeismicDetector \<Rightarrow> SeismicDetector" where
  "confirm_track ax ay az mag d =
     (case (m_ap d, m_ae d) of ((p0, p1, p2), (e0, e1, e2)) \<Rightarrow>
        d\<lparr> m_sc := m_sc d + 1, m_pk := max (m_pk d) mag,
           m_ap := (max p0 \<bar>ax\<bar>, max p1 \<bar>ay\<bar>, max p2 \<bar>az\<bar>),
           m_ae := (e0 + ax * ax, e1 + ay * ay, e2 + az * az),
           m_zc := (if (ax \<ge> 0) \<noteq> m_ps d then m_zc d + 1 else m_zc d),
           m_ps := (ax \<ge> 0) \<rparr>)"

text \<open>Lines 202 to 228: the \<open>switch\<close> over the state.\<close>

definition trigger_engine ::
  "real \<Rightarrow> real \<Rightarrow> real \<Rightarrow> real \<Rightarrow> real \<Rightarrow> real \<Rightarrow> 64 word \<Rightarrow> SeismicDetector
     \<Rightarrow> SeismicDetector \<times> callback list" where
  "trigger_engine ax ay az mag r thr t d =
     (case m_st d of
        IDLE \<Rightarrow>
          if r \<ge> thr
          then (d\<lparr> m_st := CONFIRM, m_sc := 1, m_pk := mag, m_t0 := t, m_zc := 0,
                   m_ps := (ax \<ge> 0), m_ap := (\<bar>ax\<bar>, \<bar>ay\<bar>, \<bar>az\<bar>),
                   m_ae := (ax * ax, ay * ay, az * az) \<rparr>, [])
          else (d, [])
      | CONFIRM \<Rightarrow>
          if r \<ge> thr
          then
            let d1 = confirm_track ax ay az mag d in
            if m_sc d1 \<ge> min_sustained (m_cfg d1)
            then
              let rc = check_reject d1 in
              if rc \<noteq> RC_NONE
              then (d1\<lparr> m_lr := rc, m_st := IDLE, m_cd := cooldown (m_cfg d1) \<rparr>, [])
              else
                let d2 = d1\<lparr> m_st := TRIGGERED, m_dur := m_sc d1 \<rparr>
                in (d2, fire t r d2)
            else (d1, [])
          else (d\<lparr> m_st := IDLE \<rparr>, [])
      | TRIGGERED \<Rightarrow>
          let d1 = d\<lparr> m_dur := m_dur d + 1, m_pk := max (m_pk d) mag \<rparr> in
          if r < sta_lta_detrigger (m_cfg d1)
          then (reset_st d1, fire t r d1)
          else (d1, []))"

text \<open>
  Lines 165 to 200: everything before the \<open>switch\<close>. \<open>Inl\<close> is one of the three early
  returns, with the final detector and the callbacks made; \<open>Inr\<close> carries the detector, the
  telemetry already emitted and the values \<open>ax, ay, az, mag, r, at\<close> into the \<open>switch\<close>.
\<close>

definition pre_switch ::
  "real \<Rightarrow> real \<Rightarrow> real \<Rightarrow> 64 word \<Rightarrow> SeismicDetector
     \<Rightarrow> (SeismicDetector \<times> callback list)
        + (SeismicDetector \<times> callback list \<times> real \<times> real \<times> real \<times> real \<times> real \<times> real)" where
  "pre_switch ax_r ay_r az_r t d0 =
     (let d = d0\<lparr> m_total := m_total d0 + 1 \<rparr> in
      if m_cd d > 0 then Inl (d\<lparr> m_cd := m_cd d - 1 \<rparr>, [])
      else
        case filter_axes ax_r ay_r az_r d of (d, ax, ay, az) \<Rightarrow>
        let mag = magnitude ax ay az;
            d = accumulate mag d in
        if \<not> Ring_full (m_lta d) then Inl (d, [])
        else
          let s = Ring_avg (m_sta d); l = Ring_avg (m_lta d);
              bv = Ring_var (m_cal d);
              thr = adaptive_at d in
          if l < min_amplitude_g (m_cfg d)
          then Inl (d, if m_total d mod 10 = 0 then emit_dbg mag mag s l 0 bv thr t d else [])
          else
            let r = s / l in
            Inr (d, (if m_total d mod 10 = 0 then emit_dbg mag mag s l r bv thr t d else []),
                 ax, ay, az, mag, r, thr))"

definition process_sample ::
  "real \<Rightarrow> real \<Rightarrow> real \<Rightarrow> 64 word \<Rightarrow> SeismicDetector \<Rightarrow> SeismicDetector \<times> callback list" where
  "process_sample ax_r ay_r az_r t d0 =
     (case pre_switch ax_r ay_r az_r t d0 of
        Inl res \<Rightarrow> res
      | Inr (d, dbg, ax, ay, az, mag, r, thr) \<Rightarrow>
          (case trigger_engine ax ay az mag r thr t d of (d', evs) \<Rightarrow> (d', dbg @ evs)))"

text \<open>A stream of samples \<open>(ax, ay, az, ts)\<close>, processed in order; the callbacks are collected.\<close>

fun run :: "(real \<times> real \<times> real \<times> 64 word) list \<Rightarrow> SeismicDetector
              \<Rightarrow> SeismicDetector \<times> callback list" where
  "run [] d = (d, [])"
| "run ((ax, ay, az, t) # xs) d =
     (case process_sample ax ay az t d of (d1, out1) \<Rightarrow>
        (case run xs d1 of (d2, out2) \<Rightarrow> (d2, out1 @ out2)))"

subsection \<open>Reachable detectors\<close>

text \<open>
  The detectors a caller can hold: built by the constructor, then driven through the public
  operations \<open>process_sample\<close>, \<open>reset\<close> and \<open>update_config\<close>.
\<close>

inductive reachable :: "SeismicDetector \<Rightarrow> bool" where
  reachable_new: "reachable (SeismicDetector_new e g)"
| reachable_sample: "reachable d \<Longrightarrow> reachable (fst (process_sample ax ay az t d))"
| reachable_reset: "reachable d \<Longrightarrow> reachable (reset d)"
| reachable_update: "reachable d \<Longrightarrow> reachable (update_config c d)"

text \<open>The capacity \<open>set_cap\<close> gives the LTA ring under a configuration.\<close>

definition lta_cap :: "Config \<Rightarrow> nat" where
  "lta_cap c = (if 0 < unat (lta_window c) \<and> unat (lta_window c) \<le> 1000
                then unat (lta_window c) else 1000)"

subsection \<open>Concrete detectors used below\<close>

text \<open>A fresh detector after one sample of a phone lying face up at rest.\<close>

definition one_sample_detector :: SeismicDetector where
  "one_sample_detector = fst (process_sample 0 0 (-1) 0 (SeismicDetector_new True True))"

subsection \<open>The live window of a ring\<close>

text \<open>
  The samples a ring holds, oldest first, read through \<open>at(i)\<close>; and the relation between
  the members of a ring that \<open>set_cap\<close> establishes and \<open>push\<close> keeps.
\<close>

definition live :: "Ring \<Rightarrow> real list" where
  "live r = map (Ring_at r) [0..<Ring_size r]"

definition ring_wf :: "Ring \<Rightarrow> bool" where
  "ring_wf r \<longleftrightarrow>
     0 < r_cap r \<and> r_n r \<le> r_cap r \<and> r_h r < r_cap r
     \<and> (r_n r = r_cap r \<or> r_h r = r_n r)
     \<and> r_s r = sum_list (live r)
     \<and> r_sq r = (\<Sum>x\<leftarrow>live r. x * x)"

subsection \<open>The candidate moment and the four checks\<close>

text \<open>
  The detector on which \<open>check_reject()\<close> is called by this sample (line 218), when it is
  called: the sample reaches the \<open>switch\<close> in state \<open>CONFIRM\<close> with \<open>r \<ge> at\<close>, and
  the incremented sustained count reaches \<open>min_sustained\<close>.
\<close>

definition candidate ::
  "real \<Rightarrow> real \<Rightarrow> real \<Rightarrow> 64 word \<Rightarrow> SeismicDetector \<Rightarrow> SeismicDetector option" where
  "candidate ax_r ay_r az_r t d =
     (case pre_switch ax_r ay_r az_r t d of
        Inl res \<Rightarrow> None
      | Inr (d1, dbg, ax, ay, az, mag, r, thr) \<Rightarrow>
          if m_st d1 = CONFIRM \<and> r \<ge> thr
             \<and> m_sc (confirm_track ax ay az mag d1) \<ge> min_sustained (m_cfg d1)
          then Some (confirm_track ax ay az mag d1)
          else None)"

text \<open>
  The four conditions of \<open>check_reject\<close> (lines 262, 265 to 267, 270 to 271, 275 to 277),
  each on its own. \<open>f_est\<close> is the frequency estimate of line 266.
\<close>

definition axis_fails :: "SeismicDetector \<Rightarrow> bool" where
  "axis_fails d \<longleftrightarrow>
     max3 (m_ap d) > 0 \<and> min3 (m_ap d) / max3 (m_ap d) < axis_coherence_min (m_cfg d)"

definition f_est :: "SeismicDetector \<Rightarrow> real" where
  "f_est d = real (unat (m_zc d)) / (2 * (real (unat (m_sc d)) * dt (m_cfg d)))"

definition frequency_fails :: "SeismicDetector \<Rightarrow> bool" where
  "frequency_fails d \<longleftrightarrow>
     real (unat (m_sc d)) * dt (m_cfg d) > 0
     \<and> (f_est d < pwave_freq_min (m_cfg d) \<or> f_est d > pwave_freq_max (m_cfg d))"

definition periodicity_fails :: "SeismicDetector \<Rightarrow> bool" where
  "periodicity_fails d \<longleftrightarrow>
     Ring_full (m_per d) \<and> autocorr d > periodicity_thresh (m_cfg d)"

definition energy_fails :: "SeismicDetector \<Rightarrow> bool" where
  "energy_fails d \<longleftrightarrow>
     (case m_ae d of (e0, e1, e2) \<Rightarrow> e0 + e1 + e2 > 0 \<and> max3 (m_ae d) / (e0 + e1 + e2) > 0.85)"

subsection \<open>Intermediate values of one sample\<close>

text \<open>
  Names for the intermediate values of \<open>process_sample\<close> on a sample that is not
  swallowed by the cooldown: the filtered axes, their magnitude, the detector after the four
  pushes (line 187), the STA/LTA ratio \<open>r\<close>, the telemetry of lines 196 and 200, the
  \<open>switch\<close> as it is called, and the \<open>CONFIRM\<close> bookkeeping as it is called.
\<close>

definition filtered :: "real \<Rightarrow> real \<Rightarrow> real \<Rightarrow> SeismicDetector \<Rightarrow> real \<times> real \<times> real" where
  "filtered ax_r ay_r az_r d = snd (filter_axes ax_r ay_r az_r d)"

definition filtered_mag :: "real \<Rightarrow> real \<Rightarrow> real \<Rightarrow> SeismicDetector \<Rightarrow> real" where
  "filtered_mag ax_r ay_r az_r d =
     (case filtered ax_r ay_r az_r d of (ax, ay, az) \<Rightarrow> magnitude ax ay az)"

definition after_accumulate :: "real \<Rightarrow> real \<Rightarrow> real \<Rightarrow> SeismicDetector \<Rightarrow> SeismicDetector" where
  "after_accumulate ax_r ay_r az_r d =
     accumulate (filtered_mag ax_r ay_r az_r d)
       (fst (filter_axes ax_r ay_r az_r (d\<lparr> m_total := m_total d + 1 \<rparr>)))"

definition telemetry ::
  "real \<Rightarrow> real \<Rightarrow> real \<Rightarrow> 64 word \<Rightarrow> SeismicDetector \<Rightarrow> callback list" where
  "telemetry ax_r ay_r az_r t d =
     (let d1 = after_accumulate ax_r ay_r az_r d;
          mag = filtered_mag ax_r ay_r az_r d;
          s = Ring_avg (m_sta d1); l = Ring_avg (m_lta d1)
      in if m_total d1 mod 10 = 0
         then emit_dbg mag mag s l (if l < min_amplitude_g (m_cfg d1) then 0 else s / l)
                (Ring_var (m_cal d1)) (adaptive_at d1) t d1
         else [])"

text \<open>The ratio of line 199 and the guard under which a sample reaches the \<open>switch\<close>.\<close>

definition sta_lta_ratio :: "real \<Rightarrow> real \<Rightarrow> real \<Rightarrow> SeismicDetector \<Rightarrow> real" where
  "sta_lta_ratio ax_r ay_r az_r d =
     Ring_avg (m_sta (after_accumulate ax_r ay_r az_r d))
       / Ring_avg (m_lta (after_accumulate ax_r ay_r az_r d))"

definition reaches_switch :: "real \<Rightarrow> real \<Rightarrow> real \<Rightarrow> SeismicDetector \<Rightarrow> bool" where
  "reaches_switch ax_r ay_r az_r d \<longleftrightarrow>
     m_cd d = 0 \<and> Ring_full (m_lta (after_accumulate ax_r ay_r az_r d))
     \<and> \<not> Ring_avg (m_lta (after_accumulate ax_r ay_r az_r d)) < min_amplitude_g (m_cfg d)"

definition engine ::
  "real \<Rightarrow> real \<Rightarrow> real \<Rightarrow> 64 word \<Rightarrow> SeismicDetector \<Rightarrow> SeismicDetector \<times> callback list" where
  "engine ax_r ay_r az_r t d =
     (case filtered ax_r ay_r az_r d of (ax, ay, az) \<Rightarrow>
        trigger_engine ax ay az (filtered_mag ax_r ay_r az_r d) (sta_lta_ratio ax_r ay_r az_r d)
          (adaptive_at (after_accumulate ax_r ay_r az_r d)) t (after_accumulate ax_r ay_r az_r d))"

definition tracked :: "real \<Rightarrow> real \<Rightarrow> real \<Rightarrow> SeismicDetector \<Rightarrow> SeismicDetector" where
  "tracked ax_r ay_r az_r d =
     (case filtered ax_r ay_r az_r d of (ax, ay, az) \<Rightarrow>
        confirm_track ax ay az (filtered_mag ax_r ay_r az_r d) (after_accumulate ax_r ay_r az_r d))"

subsection \<open>A detector at rest\<close>

text \<open>
  A ring that has taken \<open>k\<close> zeros, and a detector that has taken \<open>k\<close> samples of a phone
  at rest, face up: \<open>(0, 0, -1)\<close> g, which the gravity estimator cancels exactly.
\<close>

definition quiet_ring :: "nat \<Rightarrow> nat \<Rightarrow> Ring" where
  "quiet_ring c k = \<lparr> r_b = (\<lambda>i. 0), r_h = k mod c, r_n = min k c, r_cap = c, r_s = 0, r_sq = 0 \<rparr>"

definition quiet_state :: "SeismicDetector \<Rightarrow> nat \<Rightarrow> SeismicDetector" where
  "quiet_state d k =
     d\<lparr> m_total := of_nat k,
        m_sta := quiet_ring (r_cap (m_sta d)) k, m_lta := quiet_ring (r_cap (m_lta d)) k,
        m_cal := quiet_ring (r_cap (m_cal d)) k, m_per := quiet_ring (r_cap (m_per d)) k \<rparr>"

subsection \<open>A short run that triggers and de-triggers\<close>

text \<open>
  A configuration with short windows, so that a whole trigger / de-trigger cycle takes
  twelve samples: STA over 1 sample, LTA over 10, two sustained samples. All windows are within
  their bounds, everything else is the default.
\<close>

definition small_config :: Config where
  "small_config = default_config\<lparr> sta_window := 1, lta_window := 10, min_sustained := 2 \<rparr>"

definition small_detector :: SeismicDetector where
  "small_detector = update_config small_config (SeismicDetector_new True True)"

text \<open>
  The band-pass filter with the given contents of its four delay elements.
\<close>

definition bp_state :: "real \<Rightarrow> real \<Rightarrow> real \<Rightarrow> real \<Rightarrow> BandPassFilter" where
  "bp_state h1 h2 l1 l2 =
     \<lparr> hp = (hp BandPassFilter_new)\<lparr> w1 := h1, w2 := h2 \<rparr>,
       lp = (lp BandPassFilter_new)\<lparr> w1 := l1, w2 := l2 \<rparr> \<rparr>"

text \<open>
  The detector after nine samples at rest, and after each of the three samples of a burst
  along the direction \<open>(1, 2, 2)\<close>: \<open>(0.2, 0.4, -0.6)\<close>, \<open>(-2, -4, -5)\<close> and
  \<open>(3.6, 7.2, 6.2)\<close> g (gravity included in the third axis). The members are exact
  rationals; \<open>burst1_step\<close>, \<open>burst2_step\<close> and \<open>burst3_step\<close> below check that
  \<open>process_sample\<close> computes them.
\<close>

definition rest9 :: SeismicDetector where
  "rest9 = quiet_state small_detector 9"

definition burst1_mag :: real where
  "burst1_mag =
     (80184685686777 / 500000000000000)"

definition burst1_grav :: GravityEstimator where
  "burst1_grav =
     \<lparr> gx = (249 / 100000), gy = (249 / 50000), gz = (- (49751 / 50000)) \<rparr>"

definition burst1_bpx :: BandPassFilter where
  "burst1_bpx =
     bp_state (- (44509490781 / 2000000000000)) (213608309313 / 10000000000000)
         (545474052291 / 5000000000000) (1129676762294661 / 25000000000000000)"

definition burst1_bpy :: BandPassFilter where
  "burst1_bpy =
     bp_state (- (44509490781 / 1000000000000)) (213608309313 / 5000000000000) (545474052291
         / 2500000000000) (1129676762294661 / 12500000000000000)"

definition burst1_hx :: HighPassState where
  "burst1_hx =
     \<lparr> prev_raw = (545474052291 / 10000000000000), prev_filt = (26728228562259 /
         500000000000000) \<rparr>"

definition burst1_hy :: HighPassState where
  "burst1_hy =
     \<lparr> prev_raw = (545474052291 / 5000000000000), prev_filt = (26728228562259 /
         250000000000000) \<rparr>"

definition burst1_sta :: Ring where
  "burst1_sta =
     \<lparr> r_b = (\<lambda>i. 0)(0 := (80184685686777 / 500000000000000)), r_h = 0, r_n =
         1, r_cap = 1, r_s = (80184685686777 / 500000000000000), r_sq =
         (6429583818687220292152647729 / 250000000000000000000000000000) \<rparr>"

definition burst1_lta :: Ring where
  "burst1_lta =
     \<lparr> r_b = (\<lambda>i. 0)(9 := (80184685686777 / 500000000000000)), r_h = 0, r_n =
         10, r_cap = 10, r_s = (80184685686777 / 500000000000000), r_sq =
         (6429583818687220292152647729 / 250000000000000000000000000000) \<rparr>"

definition burst1_cal :: Ring where
  "burst1_cal =
     \<lparr> r_b = (\<lambda>i. 0)(9 := (80184685686777 / 500000000000000)), r_h = 10, r_n
         = 10, r_cap = 2500, r_s = (80184685686777 / 500000000000000), r_sq =
         (6429583818687220292152647729 / 250000000000000000000000000000) \<rparr>"

definition burst1_per :: Ring where
  "burst1_per =
     \<lparr> r_b = (\<lambda>i. 0)(9 := (80184685686777 / 500000000000000)), r_h = 10, r_n
         = 10, r_cap = 200, r_s = (80184685686777 / 500000000000000), r_sq =
         (6429583818687220292152647729 / 250000000000000000000000000000) \<rparr>"

definition burst1 :: SeismicDetector where
  "burst1 =
     rest9\<lparr>
       m_total := 10,
       m_grav := burst1_grav,
       m_bpx := burst1_bpx,
       m_bpy := burst1_bpy,
       m_bpz := burst1_bpy,
       m_hx := burst1_hx,
       m_hy := burst1_hy,
       m_hz := burst1_hy,
       m_sta := burst1_sta,
       m_lta := burst1_lta,
       m_cal := burst1_cal,
       m_per := burst1_per,
       m_st := CONFIRM,
       m_sc := 1,
       m_dur := 0,
       m_cd := 0,
       m_zc := 0,
       m_pk := (80184685686777 / 500000000000000),
       m_t0 := 180,
       m_ps := True,
       m_ap := ((26728228562259 / 500000000000000), (26728228562259 / 250000000000000),
           (26728228562259 / 250000000000000)),
       m_ae := ((714398202076357810239183081 / 250000000000000000000000000000),
           (714398202076357810239183081 / 62500000000000000000000000000),
           (714398202076357810239183081 / 62500000000000000000000000000)),
       m_lr := RC_NONE \<rparr>"

definition burst2_mag :: real where
  "burst2_mag =
     (13073230969686435303 / 10000000000000000000)"

definition burst2_grav :: GravityEstimator where
  "burst2_grav =
     \<lparr> gx = (- (44882001 / 2000000000)), gy = (- (44882001 / 1000000000)), gz = (-
         (1044882001 / 1000000000)) \<rparr>"

definition burst2_bpx :: BandPassFilter where
  "burst2_bpx =
     bp_state (8093412308383059 / 40000000000000000) (- (38834425112777007 /
         200000000000000000)) (- (21203121886603461 / 20000000000000000)) (-
         (238276904171941370379 / 500000000000000000000))"

definition burst2_bpy :: BandPassFilter where
  "burst2_bpy =
     bp_state (8093412308383059 / 20000000000000000) (- (38834425112777007 /
         100000000000000000)) (- (21203121886603461 / 10000000000000000)) (-
         (238276904171941370379 / 250000000000000000000))"

definition burst2_hx :: HighPassState where
  "burst2_hx =
     \<lparr> prev_raw = (- (88715354390555949 / 200000000000000000)), prev_filt = (-
         (4357743656562145101 / 10000000000000000000)) \<rparr>"

definition burst2_hy :: HighPassState where
  "burst2_hy =
     \<lparr> prev_raw = (- (88715354390555949 / 100000000000000000)), prev_filt = (-
         (4357743656562145101 / 5000000000000000000)) \<rparr>"

definition burst2_sta :: Ring where
  "burst2_sta =
     \<lparr> r_b = (\<lambda>i. 0)(0 := (13073230969686435303 / 10000000000000000000)), r_h
         = 0, r_n = 1, r_cap = 1, r_s = (13073230969686435303 / 10000000000000000000), r_sq =
         (170909367986768533484260190639204701809 / 100000000000000000000000000000000000000)
         \<rparr>"

definition burst2_lta :: Ring where
  "burst2_lta =
     \<lparr> r_b = (\<lambda>i. 0)(9 := (80184685686777 / 500000000000000), 0 :=
         (13073230969686435303 / 10000000000000000000)), r_h = 1, r_n = 10, r_cap = 10, r_s =
         (14676924683421975303 / 10000000000000000000), r_sq =
         (173481201514243421601121249730804701809 / 100000000000000000000000000000000000000)
         \<rparr>"

definition burst2_cal :: Ring where
  "burst2_cal =
     \<lparr> r_b = (\<lambda>i. 0)(9 := (80184685686777 / 500000000000000), 10 :=
         (13073230969686435303 / 10000000000000000000)), r_h = 11, r_n = 11, r_cap = 2500, r_s =
         (14676924683421975303 / 10000000000000000000), r_sq =
         (173481201514243421601121249730804701809 / 100000000000000000000000000000000000000)
         \<rparr>"

definition burst2_per :: Ring where
  "burst2_per =
     \<lparr> r_b = (\<lambda>i. 0)(9 := (80184685686777 / 500000000000000), 10 :=
         (13073230969686435303 / 10000000000000000000)), r_h = 11, r_n = 11, r_cap = 200, r_s =
         (14676924683421975303 / 10000000000000000000), r_sq =
         (173481201514243421601121249730804701809 / 100000000000000000000000000000000000000)
         \<rparr>"

definition burst2 :: SeismicDetector where
  "burst2 =
     burst1\<lparr>
       m_total := 11,
       m_grav := burst2_grav,
       m_bpx := burst2_bpx,
       m_bpy := burst2_bpy,
       m_bpz := burst2_bpy,
       m_hx := burst2_hx,
       m_hy := burst2_hy,
       m_hz := burst2_hy,
       m_sta := burst2_sta,
       m_lta := burst2_lta,
       m_cal := burst2_cal,
       m_per := burst2_per,
       m_st := TRIGGERED,
       m_sc := 2,
       m_dur := 2,
       m_cd := 0,
       m_zc := 1,
       m_pk := (13073230969686435303 / 10000000000000000000),
       m_t0 := 180,
       m_ps := False,
       m_ap := ((4357743656562145101 / 10000000000000000000), (4357743656562145101 /
           5000000000000000000), (4357743656562145101 / 5000000000000000000)),
       m_ae := ((19275689057138157955680138858978300201 /
           100000000000000000000000000000000000000), (19275689057138157955680138858978300201 /
           25000000000000000000000000000000000000), (19275689057138157955680138858978300201 /
           25000000000000000000000000000000000000)),
       m_lr := RC_NONE \<rparr>"

definition burst3_mag :: real where
  "burst3_mag =
     (3008143638445033955853 / 200000000000000000000000)"

definition burst3_grav :: GravityEstimator where
  "burst3_grav =
     \<lparr> gx = (906335598249 / 40000000000000), gy = (906335598249 / 20000000000000), gz
         = (- (19093664401751 / 20000000000000)) \<rparr>"

definition burst3_bpx :: BandPassFilter where
  "burst3_bpx =
     bp_state (- (173410472165763511791 / 800000000000000000000)) (831057203744642162043 /
         4000000000000000000000) (647168714656074606177 / 400000000000000000000)
         (10494545772294591812982471 / 10000000000000000000000000)"

definition burst3_bpy :: BandPassFilter where
  "burst3_bpy =
     bp_state (- (173410472165763511791 / 400000000000000000000)) (831057203744642162043 /
         2000000000000000000000) (647168714656074606177 / 200000000000000000000)
         (10494545772294591812982471 / 5000000000000000000000000)"

definition burst3_hx :: HighPassState where
  "burst3_hx =
     \<lparr> prev_raw = (- (51673187352553687599 / 4000000000000000000000)), prev_filt = (-
         (1002714546148344651951 / 200000000000000000000000)) \<rparr>"

definition burst3_hy :: HighPassState where
  "burst3_hy =
     \<lparr> prev_raw = (- (51673187352553687599 / 2000000000000000000000)), prev_filt = (-
         (1002714546148344651951 / 100000000000000000000000)) \<rparr>"

definition burst3_sta :: Ring where
  "burst3_sta =
     \<lparr> r_b = (\<lambda>i. 0)(0 := (3008143638445033955853 /
         200000000000000000000000)), r_h = 0, r_n = 1, r_cap = 1, r_s = (3008143638445033955853
         / 200000000000000000000000), r_sq = (9048928149517327170184404848290169952957609 /
         40000000000000000000000000000000000000000000000) \<rparr>"

definition burst3_lta :: Ring where
  "burst3_lta =
     \<lparr> r_b = (\<lambda>i. 0)(9 := (80184685686777 / 500000000000000), 0 :=
         (13073230969686435303 / 10000000000000000000), 1 := (3008143638445033955853 /
         200000000000000000000000)), r_h = 2, r_n = 10, r_cap = 10, r_s =
         (296546637306884540015853 / 200000000000000000000000), r_sq =
         (69401529533846885967618684297170170893552957609 /
         40000000000000000000000000000000000000000000000) \<rparr>"

definition burst3_cal :: Ring where
  "burst3_cal =
     \<lparr> r_b = (\<lambda>i. 0)(9 := (80184685686777 / 500000000000000), 10 :=
         (13073230969686435303 / 10000000000000000000), 11 := (3008143638445033955853 /
         200000000000000000000000)), r_h = 12, r_n = 12, r_cap = 2500, r_s =
         (296546637306884540015853 / 200000000000000000000000), r_sq =
         (69401529533846885967618684297170170893552957609 /
         40000000000000000000000000000000000000000000000) \<rparr>"

definition burst3_per :: Ring where
  "burst3_per =
     \<lparr> r_b = (\<lambda>i. 0)(9 := (80184685686777 / 500000000000000), 10 :=
         (13073230969686435303 / 10000000000000000000), 11 := (3008143638445033955853 /
         200000000000000000000000)), r_h = 12, r_n = 12, r_cap = 200, r_s =
         (296546637306884540015853 / 200000000000000000000000), r_sq =
         (69401529533846885967618684297170170893552957609 /
         40000000000000000000000000000000000000000000000) \<rparr>"

definition burst3 :: SeismicDetector where
  "burst3 =
     burst2\<lparr>
       m_total := 12,
       m_grav := burst3_grav,
       m_bpx := burst3_bpx,
       m_bpy := burst3_bpy,
       m_bpz := burst3_bpy,
       m_hx := burst3_hx,
       m_hy := burst3_hy,
       m_hz := burst3_hy,
       m_sta := burst3_sta,
       m_lta := burst3_lta,
       m_cal := burst3_cal,
       m_per := burst3_per,
       m_st := IDLE,
       m_sc := 0,
       m_dur := 0,
       m_cd := 500,
       m_zc := 0,
       m_pk := 0,
       m_t0 := 0,
       m_ps := False,
       m_ap := (0, 0, 0),
       m_ae := (0, 0, 0),
       m_lr := RC_NONE \<rparr>"

subsection \<open>Streams of samples at rest\<close>

text \<open>
  The filters of a detector are at rest when they are as the constructor or \<open>reset()\<close>
  leaves them; \<open>caps_pos\<close> says that the four capacities are positive, which \<open>set_cap\<close>
  guarantees. \<open>resting k j\<close> is the stream of \<open>j\<close> samples at rest that starts at sample
  number \<open>k\<close>, with the timestamps of a 50 Hz sensor.
\<close>

definition at_rest :: "SeismicDetector \<Rightarrow> bool" where
  "at_rest d \<longleftrightarrow>
     m_grav d = GravityEstimator_new
     \<and> m_bpx d = BandPassFilter_new \<and> m_bpy d = BandPassFilter_new \<and> m_bpz d = BandPassFilter_new
     \<and> m_hx d = HighPassState_new \<and> m_hy d = HighPassState_new \<and> m_hz d = HighPassState_new"

definition caps_pos :: "SeismicDetector \<Rightarrow> bool" where
  "caps_pos d \<longleftrightarrow>
     0 < r_cap (m_sta d) \<and> 0 < r_cap (m_lta d) \<and> 0 < r_cap (m_cal d) \<and> 0 < r_cap (m_per d)"

definition resting :: "nat \<Rightarrow> nat \<Rightarrow> (real \<times> real \<times> real \<times> 64 word) list" where
  "resting k j = map (\<lambda>i. (0, 0, -1, 20 * of_nat i)) [k..<k + j]"

subsection \<open>The dynamic threshold, in the words of the specification\<close>

text \<open>
  Section 4.4 of the specification: the base ratio plus a hundred times the standard
  deviation of the baseline, clamped to the interval from \<open>adaptive_trig_min\<close> to
  \<open>adaptive_trig_max\<close>.
\<close>

definition spec_dynamic_threshold :: "Config \<Rightarrow> real \<Rightarrow> real" where
  "spec_dynamic_threshold c bv =
     max (adaptive_trig_min c) (min (adaptive_trig_max c) (sta_lta_trigger c + sqrt bv * 100))"

subsection \<open>The streams of the short run\<close>

text \<open>
  Eleven samples that end on the trigger edge, the twelfth sample (the de-trigger edge), and
  nineteen samples that end in the cooldown after the de-trigger edge.
\<close>

definition trigger_stream :: "(real \<times> real \<times> real \<times> 64 word) list" where
  "trigger_stream = resting 0 9 @ [(1 / 5, 2 / 5, - (3 / 5), 180), (- 2, - 4, - 5, 200)]"

definition cooldown_stream :: "(real \<times> real \<times> real \<times> 64 word) list" where
  "cooldown_stream = trigger_stream @ [(18 / 5, 36 / 5, 31 / 5, 220)] @ resting 12 7"

subsection \<open>A run whose candidate sits on the boundary of the periodicity check\<close>

text \<open>
  The short-window configuration with a periodicity threshold \<open>th\<close>, at the default rate of
  50 Hz, so that the periodicity ring holds 200 magnitudes. The stream is 198 samples at rest
  followed by the first sample of the burst; the second sample of the burst, \<open>(-2, -4, -5)\<close> g,
  is then the 200th sample: it fills the periodicity ring and is a candidate.
  \<open>boundary_candidate\<close> is the detector on which \<open>check_reject()\<close> is called by that sample.
\<close>

definition boundary_config :: "real \<Rightarrow> Config" where
  "boundary_config th = small_config\<lparr> periodicity_thresh := th \<rparr>"

definition boundary_detector :: "real \<Rightarrow> SeismicDetector" where
  "boundary_detector th = update_config (boundary_config th) (SeismicDetector_new True True)"

definition boundary_stream :: "(real \<times> real \<times> real \<times> 64 word) list" where
  "boundary_stream = resting 0 198 @ [(1 / 5, 2 / 5, - (3 / 5), 3960)]"










section \<open>Frame lemmas of the stages\<close>

lemma filter_axes_frame:
  "m_cfg (fst (filter_axes ax ay az d)) = m_cfg d"
  "m_sta (fst (filter_axes ax ay az d)) = m_sta d"
  "m_lta (fst (filter_axes ax ay az d)) = m_lta d"
  "m_cal (fst (filter_axes ax ay az d)) = m_cal d"
  "m_per (fst (filter_axes ax ay az d)) = m_per d"
  "m_st (fst (filter_axes ax ay az d)) = m_st d"
  "m_total (fst (filter_axes ax ay az d)) = m_total d"
  "m_cd (fst (filter_axes ax ay az d)) = m_cd d"
  "m_lr (fst (filter_axes ax ay az d)) = m_lr d"
  "m_on_ev (fst (filter_axes ax ay az d)) = m_on_ev d"
  "m_on_dbg (fst (filter_axes ax ay az d)) = m_on_dbg d"
  by (simp_all add: filter_axes_def Let_def split_beta)

lemma filter_axes_grav:
  "m_grav (fst (filter_axes ax ay az d)) = GravityEstimator_update ax ay az (m_grav d)"
  by (simp add: filter_axes_def Let_def split_beta)

section \<open>Cooldown\<close>

lemma process_sample_cooldown:
  "m_cd d \<noteq> 0 \<Longrightarrow>
   process_sample ax ay az t d = (d\<lparr> m_total := m_total d + 1, m_cd := m_cd d - 1 \<rparr>, [])"
  by (simp add: process_sample_def pre_switch_def Let_def word_greater_zero_iff)

lemma run_cooldown:
  "length xs \<le> unat (m_cd d) \<Longrightarrow>
   run xs d = (d\<lparr> m_total := m_total d + of_nat (length xs),
                    m_cd := m_cd d - of_nat (length xs) \<rparr>, [])"
proof (induction xs arbitrary: d)
  case Nil
  then show ?case by simp
next
  case (Cons x xs)
  obtain ax ay az t where x: "x = (ax, ay, az, t)" by (cases x) auto
  from Cons.prems have nz: "m_cd d \<noteq> 0" by (auto simp: unat_eq_0)
  let ?d1 = "d\<lparr> m_total := m_total d + 1, m_cd := m_cd d - 1 \<rparr>"
  have "unat (m_cd d - 1) = unat (m_cd d) - 1"
    using nz by (simp add: unat_minus_one)
  with Cons.prems have "length xs \<le> unat (m_cd ?d1)" by simp
  from Cons.IH [OF this] show ?case
    using nz by (simp add: x process_sample_cooldown algebra_simps)
qed

lemma reset_cd: "m_cd (reset d) = cooldown (m_cfg d)"
  by (simp add: reset_def reset_st_def)

lemma reset_total: "m_total (reset d) = 0"
  by (simp add: reset_def reset_st_def)

lemma new_fields:
  "m_cd (SeismicDetector_new e g) = 0"
  "m_total (SeismicDetector_new e g) = 0"
  "m_grav (SeismicDetector_new e g) = GravityEstimator_new"
  "m_cfg (SeismicDetector_new e g) = default_config"
  "m_st (SeismicDetector_new e g) = IDLE"
  "m_on_ev (SeismicDetector_new e g) = e"
  "m_on_dbg (SeismicDetector_new e g) = g"
  by (simp_all add: SeismicDetector_new_def apply_cfg_def)

lemma new_rings:
  "m_sta (SeismicDetector_new e g) = (Ring_new 100)\<lparr> r_cap := 25 \<rparr>"
  "m_lta (SeismicDetector_new e g) = (Ring_new 1000)\<lparr> r_cap := 500 \<rparr>"
  "m_cal (SeismicDetector_new e g) = (Ring_new 5000)\<lparr> r_cap := 2500 \<rparr>"
  "m_per (SeismicDetector_new e g) = (Ring_new 200)\<lparr> r_cap := 200 \<rparr>"
  by (simp_all add: SeismicDetector_new_def apply_cfg_def set_cap_def Ring_reset_def
        Ring_new_def default_config_def u32_of_float_def)

lemma first_sample:
  "process_sample ax ay az t (SeismicDetector_new e g) =
     (accumulate
        (case filter_axes ax ay az ((SeismicDetector_new e g)\<lparr> m_total := 1 \<rparr>) of
           (d, fx, fy, fz) \<Rightarrow> magnitude fx fy fz)
        (fst (filter_axes ax ay az ((SeismicDetector_new e g)\<lparr> m_total := 1 \<rparr>))), [])"
proof -
  have nf: "\<not> Ring_full (Ring_push v (m_lta (SeismicDetector_new e g)))" for v
    by (simp add: new_rings Ring_new_def Ring_full_def Ring_push_def)
  show ?thesis
    using nf
    by (simp add: process_sample_def pre_switch_def Let_def split_beta new_fields
          accumulate_def filter_axes_frame)
qed

text \<open>
  C10. \<open>reset()\<close> arms the cooldown: right after it the cooldown counter is the configured
  \<open>cooldown\<close>, and a stream of at most \<open>cooldown\<close> samples changes nothing but the two
  counters (the total counts the samples, the cooldown counts down) and makes no callback:
  gravity estimator, filters and rings stay as \<open>reset()\<close> left them. A freshly constructed
  detector has cooldown zero, and its first sample goes through the gravity estimator and
  into all four rings.
\<close>

theorem C10_reset_arms_cooldown:
  "length xs \<le> unat (cooldown (m_cfg d)) \<Longrightarrow>
   m_cd (reset d) = cooldown (m_cfg d)
   \<and> run xs (reset d) =
       ((reset d)\<lparr> m_total := of_nat (length xs),
                    m_cd := cooldown (m_cfg d) - of_nat (length xs) \<rparr>, [])
   \<and> m_cd (SeismicDetector_new e g) = 0
   \<and> snd (process_sample ax ay az t (SeismicDetector_new e g)) = []
   \<and> m_total (fst (process_sample ax ay az t (SeismicDetector_new e g))) = 1
   \<and> m_grav (fst (process_sample ax ay az t (SeismicDetector_new e g))) =
       GravityEstimator_update ax ay az GravityEstimator_new
   \<and> Ring_size (m_sta (fst (process_sample ax ay az t (SeismicDetector_new e g)))) = 1
   \<and> Ring_size (m_lta (fst (process_sample ax ay az t (SeismicDetector_new e g)))) = 1
   \<and> Ring_size (m_cal (fst (process_sample ax ay az t (SeismicDetector_new e g)))) = 1
   \<and> Ring_size (m_per (fst (process_sample ax ay az t (SeismicDetector_new e g)))) = 1"
proof -
  assume len: "length xs \<le> unat (cooldown (m_cfg d))"
  then have "length xs \<le> unat (m_cd (reset d))" by (simp add: reset_cd)
  from run_cooldown [OF this]
  have r: "run xs (reset d) =
       ((reset d)\<lparr> m_total := of_nat (length xs),
                    m_cd := cooldown (m_cfg d) - of_nat (length xs) \<rparr>, [])"
    by (simp add: reset_cd reset_total)
  have s1: "Ring_size (Ring_push v ((Ring_new 100)\<lparr> r_cap := 25 \<rparr>)) = 1" for v
    by (simp add: Ring_size_def Ring_push_def Ring_new_def)
  have s2: "Ring_size (Ring_push v ((Ring_new 1000)\<lparr> r_cap := 500 \<rparr>)) = 1" for v
    by (simp add: Ring_size_def Ring_push_def Ring_new_def)
  have s3: "Ring_size (Ring_push v ((Ring_new 5000)\<lparr> r_cap := 2500 \<rparr>)) = 1" for v
    by (simp add: Ring_size_def Ring_push_def Ring_new_def)
  have s4: "Ring_size (Ring_push v ((Ring_new 200)\<lparr> r_cap := 200 \<rparr>)) = 1" for v
    by (simp add: Ring_size_def Ring_push_def Ring_new_def)
  show ?thesis
    by (simp add: r reset_cd first_sample new_fields accumulate_def filter_axes_frame
          filter_axes_grav new_rings s1 s2 s3 s4)
qed

theorem C10_reset_arms_cooldown_witness:
  "run [(1, 2, 3, 0), (4, 5, 6, 20)] (reset (SeismicDetector_new True True)) =
     ((reset (SeismicDetector_new True True))\<lparr> m_total := 2, m_cd := 498 \<rparr>, [])"
  using C10_reset_arms_cooldown
          [of "[(1, 2, 3, 0), (4, 5, 6, 20)]" "SeismicDetector_new True True"]
  by (simp add: new_fields default_config_def)


section \<open>\<open>update_config\<close>\<close>

text \<open>
  C2 (as the code has it). \<open>update_config\<close> stores the new configuration, re-binds the four
  capacities (a window outside \<open>1..MAX_N\<close> gives \<open>MAX_N\<close>; the periodicity ring takes
  \<open>4 * sample_rate_hz\<close> truncated) and resets all four rings: count, head, both sums and
  the contents are cleared whether or not the capacity changed. Every other member is
  left as it was.
\<close>

theorem C2_update_config_resets_all_rings:
  "update_config c d =
     d\<lparr> m_cfg := c,
        m_sta := \<lparr> r_b = (\<lambda>i. 0), r_h = 0, r_n = 0,
                   r_cap = (if 0 < unat (sta_window c) \<and> unat (sta_window c) \<le> 100
                            then unat (sta_window c) else 100),
                   r_s = 0, r_sq = 0 \<rparr>,
        m_lta := \<lparr> r_b = (\<lambda>i. 0), r_h = 0, r_n = 0,
                   r_cap = (if 0 < unat (lta_window c) \<and> unat (lta_window c) \<le> 1000
                            then unat (lta_window c) else 1000),
                   r_s = 0, r_sq = 0 \<rparr>,
        m_cal := \<lparr> r_b = (\<lambda>i. 0), r_h = 0, r_n = 0,
                   r_cap = (if 0 < unat (calib_window c) \<and> unat (calib_window c) \<le> 5000
                            then unat (calib_window c) else 5000),
                   r_s = 0, r_sq = 0 \<rparr>,
        m_per := \<lparr> r_b = (\<lambda>i. 0), r_h = 0, r_n = 0,
                   r_cap = (if 0 < u32_of_float (4 * sample_rate_hz c)
                               \<and> u32_of_float (4 * sample_rate_hz c) \<le> 200
                            then u32_of_float (4 * sample_rate_hz c) else 200),
                   r_s = 0, r_sq = 0 \<rparr> \<rparr>"
  by (simp add: update_config_def apply_cfg_def set_cap_def Ring_reset_def)

lemma update_config_lta:
  "m_lta (update_config c d) =
     \<lparr> r_b = (\<lambda>i. 0), r_h = 0, r_n = 0, r_cap = lta_cap c, r_s = 0, r_sq = 0 \<rparr>"
  "m_cfg (update_config c d) = c"
  by (simp_all add: update_config_def apply_cfg_def set_cap_def Ring_reset_def lta_cap_def)

lemma update_config_sta:
  "m_sta (update_config c d) =
     \<lparr> r_b = (\<lambda>i. 0), r_h = 0, r_n = 0,
       r_cap = (if 0 < unat (sta_window c) \<and> unat (sta_window c) \<le> 100
                then unat (sta_window c) else 100),
       r_s = 0, r_sq = 0 \<rparr>"
  by (simp add: update_config_def apply_cfg_def set_cap_def Ring_reset_def)

lemma one_sample_detector_sta:
  "m_sta one_sample_detector = Ring_push 0 ((Ring_new 100)\<lparr> r_cap := 25 \<rparr>)"
  "m_cfg one_sample_detector = default_config"
   apply (simp_all add: one_sample_detector_def first_sample accumulate_def filter_axes_frame
      new_rings new_fields)
  apply (simp add: filter_axes_def Let_def split_beta new_fields GravityEstimator_update_def
      GravityEstimator_new_def linX_def linY_def linZ_def BandPassFilter_process_def
      BandPassFilter_new_def Biquad_process_def HighPassState_process_def HighPassState_new_def
      magnitude_def SeismicDetector_new_def apply_cfg_def)
  done

text \<open>
  C2 as stated fails: after one sample the STA ring holds one value; re-applying the very
  configuration the detector already has leaves the capacity at 25 and empties the ring.
\<close>

theorem C2_counterexample:
  "r_cap (m_sta (update_config (config one_sample_detector) one_sample_detector))
     = r_cap (m_sta one_sample_detector)
   \<and> Ring_size (m_sta one_sample_detector) = 1
   \<and> Ring_size (m_sta (update_config (config one_sample_detector) one_sample_detector)) = 0"
  by (simp add: update_config_sta config_def one_sample_detector_sta Ring_size_def
        Ring_push_def Ring_new_def default_config_def)

section \<open>Warm-up: nothing is emitted before the LTA ring is full\<close>

lemma Ring_push_cap: "r_cap (Ring_push v r) = r_cap r"
  by (simp add: Ring_push_def Let_def)

lemma Ring_push_n_le: "r_n (Ring_push v r) \<le> Suc (r_n r)"
  by (simp add: Ring_push_def Let_def)

lemma trigger_engine_frame:
  "m_cfg (fst (trigger_engine ax ay az mag r thr t d)) = m_cfg d"
  "m_sta (fst (trigger_engine ax ay az mag r thr t d)) = m_sta d"
  "m_lta (fst (trigger_engine ax ay az mag r thr t d)) = m_lta d"
  "m_cal (fst (trigger_engine ax ay az mag r thr t d)) = m_cal d"
  "m_per (fst (trigger_engine ax ay az mag r thr t d)) = m_per d"
  "m_total (fst (trigger_engine ax ay az mag r thr t d)) = m_total d"
  "m_on_ev (fst (trigger_engine ax ay az mag r thr t d)) = m_on_ev d"
  "m_on_dbg (fst (trigger_engine ax ay az mag r thr t d)) = m_on_dbg d"
  by (cases "m_st d";
      simp add: trigger_engine_def Let_def confirm_track_def reset_st_def split_beta)+

lemma pre_switch_Inl_frame:
  "pre_switch ax ay az t d = Inl (d', out) \<Longrightarrow>
   m_cfg d' = m_cfg d \<and> r_cap (m_lta d') = r_cap (m_lta d)"
  by (auto simp: pre_switch_def Let_def split_beta accumulate_def filter_axes_frame
        Ring_push_cap split: if_splits)

lemma pre_switch_Inr_frame:
  "pre_switch ax ay az t d = Inr (d', rest) \<Longrightarrow>
   m_cfg d' = m_cfg d \<and> r_cap (m_lta d') = r_cap (m_lta d)"
  by (auto simp: pre_switch_def Let_def split_beta accumulate_def filter_axes_frame
        Ring_push_cap split: if_splits)

lemma process_sample_lta_cap:
  "r_cap (m_lta (fst (process_sample ax ay az t d))) = r_cap (m_lta d)"
proof (cases "pre_switch ax ay az t d")
  case (Inl res)
  then show ?thesis
    using pre_switch_Inl_frame [of ax ay az t d "fst res" "snd res"]
    by (simp add: process_sample_def)
next
  case (Inr res)
  then show ?thesis
    using pre_switch_Inr_frame [of ax ay az t d "fst res" "snd res"]
    by (simp add: process_sample_def split_beta trigger_engine_frame)
qed

lemma process_sample_cfg:
  "m_cfg (fst (process_sample ax ay az t d)) = m_cfg d"
proof (cases "pre_switch ax ay az t d")
  case (Inl res)
  then show ?thesis
    using pre_switch_Inl_frame [of ax ay az t d "fst res" "snd res"]
    by (simp add: process_sample_def)
next
  case (Inr res)
  then show ?thesis
    using pre_switch_Inr_frame [of ax ay az t d "fst res" "snd res"]
    by (simp add: process_sample_def split_beta trigger_engine_frame)
qed

lemma reachable_lta_cap: "reachable d \<Longrightarrow> r_cap (m_lta d) = lta_cap (m_cfg d)"
proof (induction rule: reachable.induct)
  case (reachable_new e g)
  show ?case by (simp add: new_rings new_fields lta_cap_def default_config_def)
next
  case (reachable_sample d ax ay az t)
  then show ?case by (simp add: process_sample_lta_cap process_sample_cfg)
next
  case (reachable_reset d)
  then show ?case by (simp add: reset_def reset_st_def Ring_reset_def)
next
  case (reachable_update d c)
  show ?case by (simp add: update_config_lta)
qed

lemma process_sample_warmup:
  "r_n (m_lta d) + 1 < r_cap (m_lta d) \<Longrightarrow>
   snd (process_sample ax ay az t d) = []
   \<and> r_n (m_lta (fst (process_sample ax ay az t d))) \<le> r_n (m_lta d) + 1"
proof (cases "m_cd d = 0")
  case False
  assume "r_n (m_lta d) + 1 < r_cap (m_lta d)"
  with False show ?thesis by (simp add: process_sample_cooldown)
next
  case True
  assume a: "r_n (m_lta d) + 1 < r_cap (m_lta d)"
  have "\<not> Ring_full (Ring_push v (m_lta d))" for v
    using a Ring_push_n_le [of v "m_lta d"] by (simp add: Ring_full_def Ring_push_cap)
  then show ?thesis using True
    by (simp add: process_sample_def pre_switch_def Let_def split_beta accumulate_def
          filter_axes_frame Ring_push_n_le)
qed

lemma run_warmup:
  "r_n (m_lta d) + length xs < r_cap (m_lta d) \<Longrightarrow> snd (run xs d) = []"
proof (induction xs arbitrary: d)
  case Nil
  show ?case by simp
next
  case (Cons x xs)
  obtain ax ay az t where x: "x = (ax, ay, az, t)" by (cases x) auto
  let ?d1 = "fst (process_sample ax ay az t d)"
  from Cons.prems have a: "r_n (m_lta d) + 1 < r_cap (m_lta d)" by simp
  note w = process_sample_warmup [OF a, of ax ay az t]
  from w Cons.prems have "r_n (m_lta ?d1) + length xs < r_cap (m_lta ?d1)"
    by (simp add: process_sample_lta_cap)
  from Cons.IH [OF this] w show ?case
    by (simp add: x split_beta)
qed

text \<open>
  C9. Take a detector a caller can hold, with a valid LTA window (\<open>1 \<le> lta_window \<le> 1000\<close>,
  the ring's hard maximum). A stream of at most \<open>lta_window - 1\<close> samples, whatever their
  values, makes no callback at all (so no event) when it follows \<open>reset()\<close>, and likewise
  when the LTA ring is empty, as it is right after construction.
\<close>

theorem C9_no_event_before_lta_full:
  assumes "reachable d"
    and "0 < lta_window (m_cfg d)" and "lta_window (m_cfg d) \<le> 1000"
    and "length xs < unat (lta_window (m_cfg d))"
  shows "snd (run xs (reset d)) = []
         \<and> (Ring_size (m_lta d) = 0 \<longrightarrow> snd (run xs d) = [])"
proof -
  from assms(2,3) have cap: "lta_cap (m_cfg d) = unat (lta_window (m_cfg d))"
    by (simp add: lta_cap_def word_less_nat_alt word_le_nat_alt)
  have c1: "r_cap (m_lta d) = unat (lta_window (m_cfg d))"
    using reachable_lta_cap [OF assms(1)] cap by simp
  have "r_n (m_lta (reset d)) + length xs < r_cap (m_lta (reset d))"
    using c1 assms(4) by (simp add: reset_def reset_st_def Ring_reset_def)
  then have a: "snd (run xs (reset d)) = []" by (rule run_warmup)
  have b: "snd (run xs d) = []" if "Ring_size (m_lta d) = 0"
  proof -
    from that c1 assms(4) have "r_n (m_lta d) + length xs < r_cap (m_lta d)"
      by (simp add: Ring_size_def)
    then show ?thesis by (rule run_warmup)
  qed
  from a b show ?thesis by simp
qed

theorem C9_no_event_before_lta_full_witness:
  "snd (run [(3, 1, 2, 0), (-5, 9, 7, 20)] (reset (SeismicDetector_new True True))) = []
   \<and> snd (run [(3, 1, 2, 0), (-5, 9, 7, 20)] (SeismicDetector_new True True)) = []"
  using C9_no_event_before_lta_full
          [OF reachable_new, of True True "[(3, 1, 2, 0), (-5, 9, 7, 20)]"]
  by (simp add: new_fields new_rings default_config_def Ring_size_def Ring_new_def)


section \<open>Ring buffer\<close>

lemma live_not_full:
  assumes "0 < r_cap r" "r_n r < r_cap r" "r_h r = r_n r"
  shows "live r = map (r_b r) [0..<r_n r]"
  using assms by (auto simp: live_def Ring_at_def Ring_size_def)

lemma live_full:
  assumes "r_n r = r_cap r"
  shows "live r = map (\<lambda>i. r_b r ((r_h r + i) mod r_cap r)) [0..<r_cap r]"
  using assms by (auto simp: live_def Ring_at_def Ring_size_def)

lemma push_live_not_full:
  assumes "0 < r_cap r" "r_n r < r_cap r" "r_h r = r_n r"
  shows "live (Ring_push v r) = live r @ [v]"
proof (cases "Suc (r_n r) = r_cap r")
  case True
  have "live (Ring_push v r) = map ((r_b r)(r_n r := v)) [0..<Suc (r_n r)]"
    using assms True by (subst live_full) (auto simp: Ring_push_def)
  also have "\<dots> = live r @ [v]"
    using assms by (simp add: live_not_full)
  finally show ?thesis .
next
  case False
  with assms have lt: "Suc (r_n r) < r_cap r" by simp
  have "live (Ring_push v r) = map ((r_b r)(r_n r := v)) [0..<Suc (r_n r)]"
    using assms lt by (subst live_not_full) (auto simp: Ring_push_def)
  also have "\<dots> = live r @ [v]"
    using assms by (simp add: live_not_full)
  finally show ?thesis .
qed

lemma push_live_full:
  assumes "0 < r_cap r" "r_n r = r_cap r" "r_h r < r_cap r"
  shows "live (Ring_push v r) = tl (live r) @ [v]"
proof (rule nth_equalityI)
  show "length (live (Ring_push v r)) = length (tl (live r) @ [v])"
    using assms by (simp add: live_def Ring_size_def Ring_push_def)
next
  fix i assume "i < length (live (Ring_push v r))"
  then have i: "i < r_cap r"
    using assms by (simp add: live_def Ring_size_def Ring_push_def)
  let ?c = "r_cap r" and ?h = "r_h r"
  have idx: "(Suc ?h mod ?c + i) mod ?c = (?h + Suc i) mod ?c"
    by (simp add: mod_add_left_eq flip: add_Suc)
  have L: "live (Ring_push v r) ! i = ((r_b r)(?h := v)) ((?h + Suc i) mod ?c)"
    using assms i idx by (simp add: live_def Ring_size_def Ring_push_def Ring_at_def)
  show "live (Ring_push v r) ! i = (tl (live r) @ [v]) ! i"
  proof (cases "Suc i = ?c")
    case True
    then have "(?h + Suc i) mod ?c = ?h" using assms by simp
    moreover have "length (tl (live r)) = i"
      using True assms by (simp add: live_def Ring_size_def)
    ultimately show ?thesis using L by (simp add: nth_append)
  next
    case False
    with i have si: "Suc i < ?c" by simp
    have ne: "(?h + Suc i) mod ?c \<noteq> ?h"
    proof
      assume e: "(?h + Suc i) mod ?c = ?h"
      have "(?h + Suc i) mod ?c = (if ?h + Suc i < ?c then ?h + Suc i else ?h + Suc i - ?c)"
        using assms si by (simp add: mod_if)
      with e si show False by (simp split: if_splits)
    qed
    have "tl (live r) ! i = live r ! Suc i"
      using si assms by (simp add: nth_tl live_def Ring_size_def)
    also have "\<dots> = r_b r ((?h + Suc i) mod ?c)"
      using si assms by (simp add: live_def Ring_size_def Ring_at_def)
    finally have "tl (live r) ! i = r_b r ((?h + Suc i) mod ?c)" .
    moreover have "i < length (tl (live r))"
      using si assms by (simp add: live_def Ring_size_def)
    ultimately show ?thesis using L ne by (simp add: nth_append)
  qed
qed

lemma live_full_hd:
  assumes "0 < r_cap r" "r_n r = r_cap r" "r_h r < r_cap r"
  shows "live r = r_b r (r_h r) # tl (live r)"
proof -
  have "live r \<noteq> []" using assms by (simp add: live_def Ring_size_def)
  moreover have "hd (live r) = r_b r (r_h r)"
    using assms by (simp add: live_def Ring_size_def hd_map Ring_at_def upt_conv_Cons)
  ultimately show ?thesis by (cases "live r") auto
qed

lemma push_wf:
  assumes "ring_wf r"
  shows "ring_wf (Ring_push v r)"
proof (cases "r_n r = r_cap r")
  case True
  from assms have c: "0 < r_cap r" "r_h r < r_cap r" by (simp_all add: ring_wf_def)
  note l = push_live_full [OF c(1) True c(2), of v]
  note h = live_full_hd [OF c(1) True c(2)]
  from assms have s: "r_s r = sum_list (live r)" "r_sq r = (\<Sum>x\<leftarrow>live r. x * x)"
    by (simp_all add: ring_wf_def)
  have s1: "sum_list (live r) = r_b r (r_h r) + sum_list (tl (live r))"
    by (subst h) simp
  have s2: "(\<Sum>x\<leftarrow>live r. x * x) = r_b r (r_h r) * r_b r (r_h r) + (\<Sum>x\<leftarrow>tl (live r). x * x)"
    by (subst h) simp
  have "r_s (Ring_push v r) = sum_list (live (Ring_push v r))"
    using True s s1 by (simp add: l) (simp add: Ring_push_def)
  moreover have "r_sq (Ring_push v r) = (\<Sum>x\<leftarrow>live (Ring_push v r). x * x)"
    using True s s2 by (simp add: l) (simp add: Ring_push_def)
  moreover have "0 < r_cap (Ring_push v r)" "r_n (Ring_push v r) \<le> r_cap (Ring_push v r)"
    "r_h (Ring_push v r) < r_cap (Ring_push v r)" "r_n (Ring_push v r) = r_cap (Ring_push v r)"
    using True c by (simp_all add: Ring_push_def)
  ultimately show ?thesis by (simp add: ring_wf_def)
next
  case False
  from assms False have c: "0 < r_cap r" "r_n r < r_cap r" "r_h r = r_n r"
    by (auto simp: ring_wf_def)
  note l = push_live_not_full [OF c, of v]
  from assms have s: "r_s r = sum_list (live r)" "r_sq r = (\<Sum>x\<leftarrow>live r. x * x)"
    by (simp_all add: ring_wf_def)
  have "r_s (Ring_push v r) = sum_list (live (Ring_push v r))"
    using False s by (simp add: l) (simp add: Ring_push_def)
  moreover have "r_sq (Ring_push v r) = (\<Sum>x\<leftarrow>live (Ring_push v r). x * x)"
    using False s by (simp add: l) (simp add: Ring_push_def)
  moreover have "0 < r_cap (Ring_push v r)" "r_n (Ring_push v r) \<le> r_cap (Ring_push v r)"
    "r_h (Ring_push v r) < r_cap (Ring_push v r)"
    "r_n (Ring_push v r) = r_cap (Ring_push v r) \<or> r_h (Ring_push v r) = r_n (Ring_push v r)"
    using False c by (cases "Suc (r_n r) = r_cap r"; simp add: Ring_push_def)+
  ultimately show ?thesis by (simp add: ring_wf_def)
qed

lemma push_live:
  assumes "ring_wf r"
  shows "live (Ring_push v r) = (if Ring_full r then tl (live r) else live r) @ [v]"
  using assms push_live_full [of r v] push_live_not_full [of r v]
  by (auto simp: ring_wf_def Ring_full_def)

lemma set_cap_wf:
  "0 < MAX_N \<Longrightarrow> ring_wf (set_cap MAX_N c r)"
  "live (set_cap MAX_N c r) = []"
  by (simp_all add: ring_wf_def set_cap_def Ring_reset_def live_def Ring_size_def)

lemma length_live: "length (live r) = r_n r"
  by (simp add: live_def Ring_size_def)

lemma fold_push_wf: "ring_wf r \<Longrightarrow> ring_wf (fold Ring_push vs r)"
  by (induction vs arbitrary: r) (simp_all add: push_wf)

lemma fold_push_cap: "r_cap (fold Ring_push vs r) = r_cap r"
  by (induction vs arbitrary: r) (simp_all add: Ring_push_def Let_def)

lemma fold_push_live:
  "ring_wf r \<Longrightarrow>
   live (fold Ring_push vs r) = drop (length (live r @ vs) - r_cap r) (live r @ vs)"
proof (induction vs arbitrary: r)
  case Nil
  then show ?case by (simp add: length_live ring_wf_def)
next
  case (Cons v vs)
  have wf': "ring_wf (Ring_push v r)" using Cons.prems by (rule push_wf)
  have cap: "r_cap (Ring_push v r) = r_cap r" by (simp add: Ring_push_def Let_def)
  show ?case
  proof (cases "Ring_full r")
    case True
    then have n: "length (live r) = r_cap r" by (simp add: length_live Ring_full_def)
    from Cons.prems have "0 < r_cap r" by (simp add: ring_wf_def)
    with n obtain x w where w: "live r = x # w" by (cases "live r") auto
    with n have c: "r_cap r = Suc (length w)" by simp
    show ?thesis
      by (simp add: Cons.IH [OF wf'] cap push_live [OF Cons.prems] True w c)
  next
    case False
    show ?thesis
      by (simp add: Cons.IH [OF wf'] cap push_live [OF Cons.prems] False)
  qed
qed


lemma fold_push_set_cap:
  assumes "0 < MAX_N"
  shows "ring_wf (fold Ring_push vs (set_cap MAX_N c r0))"
    and "live (fold Ring_push vs (set_cap MAX_N c r0)) =
           drop (length vs - r_cap (set_cap MAX_N c r0)) vs"
  using fold_push_wf [OF set_cap_wf(1) [OF assms]]
        fold_push_live [OF set_cap_wf(1) [OF assms], where vs = vs and c1 = c and r1 = r0]
  by (simp_all add: set_cap_wf(2))

lemma wf_avg:
  assumes "ring_wf r"
  shows "Ring_avg r = (if live r = [] then 0 else sum_list (live r) / real (length (live r)))"
proof -
  have "live r = [] \<longleftrightarrow> r_n r = 0" using length_live [of r] by auto
  then show ?thesis using assms by (simp add: Ring_avg_def ring_wf_def length_live)
qed

lemma wf_var:
  assumes "ring_wf r"
  shows "Ring_var r =
           (if live r = [] then 0
            else max 0 ((\<Sum>x\<leftarrow>live r. x * x) / real (length (live r))
                        - (sum_list (live r) / real (length (live r)))
                          * (sum_list (live r) / real (length (live r)))))"
proof -
  from assms have s: "r_s r = sum_list (live r)" "r_sq r = (\<Sum>x\<leftarrow>live r. x * x)"
    by (simp_all add: ring_wf_def)
  consider "r_n r = 0" | "r_n r = 1" | "2 \<le> r_n r" by linarith
  then show ?thesis
  proof cases
    case 1
    then have "live r = []" using length_live [of r] by simp
    with 1 show ?thesis by (simp add: Ring_var_def)
  next
    case 2
    then obtain x where x: "live r = [x]"
      using length_live [of r] by (cases "live r") auto
    with 2 show ?thesis by (simp add: Ring_var_def)
  next
    case 3
    then have ne: "live r \<noteq> []" using length_live [of r] by auto
    from 3 have "\<not> r_n r < 2" "0 < r_n r" by simp_all
    then show ?thesis using ne
      by (simp add: Ring_var_def Ring_avg_def Let_def max_def flip: s length_live)
  qed
qed

lemma wf_push_sums:
  assumes "ring_wf r"
  shows "Ring_full r \<longrightarrow>
           r_n (Ring_push v r) = r_n r
           \<and> r_s (Ring_push v r) = r_s r - hd (live r) + v
           \<and> r_sq (Ring_push v r) = r_sq r - hd (live r) * hd (live r) + v * v"
    and "\<not> Ring_full r \<longrightarrow>
           r_n (Ring_push v r) = r_n r + 1
           \<and> r_s (Ring_push v r) = r_s r + v
           \<and> r_sq (Ring_push v r) = r_sq r + v * v"
proof -
  show "\<not> Ring_full r \<longrightarrow>
           r_n (Ring_push v r) = r_n r + 1
           \<and> r_s (Ring_push v r) = r_s r + v
           \<and> r_sq (Ring_push v r) = r_sq r + v * v"
    by (simp add: Ring_full_def Ring_push_def)
  show "Ring_full r \<longrightarrow>
           r_n (Ring_push v r) = r_n r
           \<and> r_s (Ring_push v r) = r_s r - hd (live r) + v
           \<and> r_sq (Ring_push v r) = r_sq r - hd (live r) * hd (live r) + v * v"
  proof
    assume f: "Ring_full r"
    with assms have c: "0 < r_cap r" "r_n r = r_cap r" "r_h r < r_cap r"
      by (simp_all add: ring_wf_def Ring_full_def)
    have "hd (live r) = r_b r (r_h r)"
      by (subst live_full_hd [OF c]) simp
    then show "r_n (Ring_push v r) = r_n r
           \<and> r_s (Ring_push v r) = r_s r - hd (live r) + v
           \<and> r_sq (Ring_push v r) = r_sq r - hd (live r) * hd (live r) + v * v"
      using c by (simp add: Ring_push_def)
  qed
qed

text \<open>
  C8. Take a ring as \<open>set_cap\<close> leaves it (for a template bound \<open>MAX_N > 0\<close>) and push the
  values \<open>vs\<close> in order. Then the live window is the last \<open>cap\<close> values pushed, the count is
  its length, the two running sums are its sum and its sum of squares; \<open>avg\<close> is 0 on the
  empty window and the mean otherwise; \<open>var\<close> is 0 on the empty window and
  \<open>max 0 (E[x\<^sup>2] - E[x]\<^sup>2)\<close> otherwise. One more push on a full ring keeps the count and
  replaces the oldest value by the new one in both sums; on a ring that is not full it
  adds the value to both sums and the count grows by one.
\<close>

theorem C8_ring_contract:
  assumes "0 < MAX_N" and "r = fold Ring_push vs (set_cap MAX_N c r0)"
  shows "live r = drop (length vs - r_cap r) vs
    \<and> Ring_size r = min (length vs) (r_cap r)
    \<and> r_s r = sum_list (live r)
    \<and> r_sq r = (\<Sum>x\<leftarrow>live r. x * x)
    \<and> Ring_avg r = (if live r = [] then 0 else sum_list (live r) / real (length (live r)))
    \<and> Ring_var r =
         (if live r = [] then 0
          else max 0 ((\<Sum>x\<leftarrow>live r. x * x) / real (length (live r))
                      - (sum_list (live r) / real (length (live r)))
                        * (sum_list (live r) / real (length (live r)))))
    \<and> (Ring_full r \<longrightarrow>
          r_n (Ring_push v r) = r_n r
          \<and> r_s (Ring_push v r) = r_s r - hd (live r) + v
          \<and> r_sq (Ring_push v r) = r_sq r - hd (live r) * hd (live r) + v * v)
    \<and> (\<not> Ring_full r \<longrightarrow>
          r_n (Ring_push v r) = r_n r + 1
          \<and> r_s (Ring_push v r) = r_s r + v
          \<and> r_sq (Ring_push v r) = r_sq r + v * v)
    \<and> live (Ring_push v r) = (if Ring_full r then tl (live r) else live r) @ [v]"
proof -
  have wf: "ring_wf r"
    unfolding assms(2) by (rule fold_push_set_cap(1) [OF assms(1)])
  have l: "live r = drop (length vs - r_cap r) vs"
    unfolding assms(2) using fold_push_set_cap(2) [OF assms(1), where vs = vs and c = c and ?r0.0 = r0]
    by (simp add: fold_push_cap)
  have n: "Ring_size r = min (length vs) (r_cap r)"
    using length_live [of r] by (simp add: l Ring_size_def)
  from wf have s: "r_s r = sum_list (live r)" "r_sq r = (\<Sum>x\<leftarrow>live r. x * x)"
    by (simp_all add: ring_wf_def)
  show ?thesis
    using l n s wf_avg [OF wf] wf_var [OF wf] wf_push_sums [OF wf, of v] push_live [OF wf, of v]
    by blast
qed

theorem C8_ring_contract_witness:
  "live (fold Ring_push [1, 2, 3] (set_cap 3 2 (Ring_new 3))) = [2, 3]
   \<and> Ring_avg (fold Ring_push [1, 2, 3] (set_cap 3 2 (Ring_new 3))) = 5 / 2
   \<and> Ring_var (fold Ring_push [1, 2, 3] (set_cap 3 2 (Ring_new 3))) = 1 / 4
   \<and> r_s (Ring_push 7 (fold Ring_push [1, 2, 3] (set_cap 3 2 (Ring_new 3)))) = 10"
proof -
  define r where "r = fold Ring_push [1, 2, 3] (set_cap 3 2 (Ring_new 3))"
  have cap: "r_cap r = 2"
    by (simp add: r_def Ring_push_cap set_cap_def Ring_reset_def)
  have full: "Ring_full r"
    by (simp add: r_def Ring_full_def Ring_push_def set_cap_def Ring_reset_def)
  have pos: "(0::nat) < 3" by simp
  note c8 = C8_ring_contract [OF pos r_def, where v = 7]
  from c8 have l: "live r = [2, 3]" by (simp add: cap)
  from c8 have "Ring_avg r = 5 / 2 \<and> Ring_var r = 1 / 4 \<and> r_s (Ring_push 7 r) = 10"
    by (simp add: l full)
  with l show ?thesis unfolding r_def by simp
qed


section \<open>One sample, case by case\<close>

lemma check_reject_order:
  "check_reject c =
     (if axis_fails c then AXIS_COHERENCE
      else if frequency_fails c then FREQUENCY
      else if periodicity_fails c then PERIODICITY
      else if energy_fails c then ENERGY_DIST
      else RC_NONE)"
  by (simp add: check_reject_def axis_fails_def frequency_fails_def f_est_def
        periodicity_fails_def energy_fails_def Let_def split_beta)

lemma fire_events: "filter is_debug (fire t r d) = []" "length (fire t r d) \<le> 1"
  by (simp_all add: fire_def Let_def)

lemma emit_dbg_debug:
  "filter is_event (emit_dbg rm fm s l r bv thr t d) = []"
  "filter is_debug (emit_dbg rm fm s l r bv thr t d) = emit_dbg rm fm s l r bv thr t d"
  "length (emit_dbg rm fm s l r bv thr t d) = (if m_on_dbg d then 1 else 0)"
  by (simp_all add: emit_dbg_def)

lemma trigger_engine_no_debug:
  "filter is_debug (snd (trigger_engine ax ay az mag r thr t d)) = []"
  by (cases "m_st d"; simp add: trigger_engine_def Let_def fire_events)

lemma accumulate_frame:
  "m_cfg (accumulate m d) = m_cfg d"
  "m_st (accumulate m d) = m_st d"
  "m_total (accumulate m d) = m_total d"
  "m_cd (accumulate m d) = m_cd d"
  "m_lr (accumulate m d) = m_lr d"
  "m_on_ev (accumulate m d) = m_on_ev d"
  "m_on_dbg (accumulate m d) = m_on_dbg d"
  "m_sc (accumulate m d) = m_sc d"
  "m_lta (accumulate m d) = Ring_push m (m_lta d)"
  "m_cal (accumulate m d) = Ring_push m (m_cal d)"
  "m_sta (accumulate m d) = Ring_push m (m_sta d)"
  "m_per (accumulate m d) = Ring_push m (m_per d)"
  by (simp_all add: accumulate_def)

lemma filter_axes_total:
  "snd (filter_axes ax ay az (d\<lparr> m_total := v \<rparr>)) = snd (filter_axes ax ay az d)"
  by (simp add: filter_axes_def Let_def split_beta)

lemma after_accumulate_frame:
  "m_cfg (after_accumulate ax ay az d) = m_cfg d"
  "m_st (after_accumulate ax ay az d) = m_st d"
  "m_total (after_accumulate ax ay az d) = m_total d + 1"
  "m_cd (after_accumulate ax ay az d) = m_cd d"
  "m_lr (after_accumulate ax ay az d) = m_lr d"
  "m_on_ev (after_accumulate ax ay az d) = m_on_ev d"
  "m_on_dbg (after_accumulate ax ay az d) = m_on_dbg d"
  "m_lta (after_accumulate ax ay az d) = Ring_push (filtered_mag ax ay az d) (m_lta d)"
  "m_cal (after_accumulate ax ay az d) = Ring_push (filtered_mag ax ay az d) (m_cal d)"
  "m_sta (after_accumulate ax ay az d) = Ring_push (filtered_mag ax ay az d) (m_sta d)"
  "m_per (after_accumulate ax ay az d) = Ring_push (filtered_mag ax ay az d) (m_per d)"
  by (simp_all add: after_accumulate_def accumulate_frame filter_axes_frame)

lemma after_accumulate_sc: "m_sc (after_accumulate ax ay az d) = m_sc d"
  by (simp add: after_accumulate_def accumulate_def filter_axes_def Let_def split_beta)

lemma pre_switch_eq:
  "pre_switch ax ay az t d =
     (if m_cd d \<noteq> 0 then Inl (d\<lparr> m_total := m_total d + 1, m_cd := m_cd d - 1 \<rparr>, [])
      else if \<not> Ring_full (m_lta (after_accumulate ax ay az d))
      then Inl (after_accumulate ax ay az d, [])
      else if Ring_avg (m_lta (after_accumulate ax ay az d)) < min_amplitude_g (m_cfg d)
      then Inl (after_accumulate ax ay az d, telemetry ax ay az t d)
      else Inr (after_accumulate ax ay az d, telemetry ax ay az t d,
                fst (filtered ax ay az d), fst (snd (filtered ax ay az d)),
                snd (snd (filtered ax ay az d)), filtered_mag ax ay az d,
                Ring_avg (m_sta (after_accumulate ax ay az d))
                  / Ring_avg (m_lta (after_accumulate ax ay az d)),
                adaptive_at (after_accumulate ax ay az d)))"
proof -
  have m: "magnitude (fst (filtered ax ay az d)) (fst (snd (filtered ax ay az d)))
             (snd (snd (filtered ax ay az d))) = filtered_mag ax ay az d"
    by (simp add: filtered_mag_def split_beta)
  have f: "snd (filter_axes ax ay az (d\<lparr> m_total := m_total d + 1 \<rparr>)) = filtered ax ay az d"
    by (simp add: filtered_def filter_axes_total)
  have a: "accumulate (filtered_mag ax ay az d)
             (fst (filter_axes ax ay az (d\<lparr> m_total := m_total d + 1 \<rparr>)))
           = after_accumulate ax ay az d"
    by (simp add: after_accumulate_def)
  have "pre_switch ax ay az t d =
     (if m_cd d \<noteq> 0 then Inl (d\<lparr> m_total := m_total d + 1, m_cd := m_cd d - 1 \<rparr>, [])
      else if \<not> Ring_full (m_lta (after_accumulate ax ay az d))
      then Inl (after_accumulate ax ay az d, [])
      else if Ring_avg (m_lta (after_accumulate ax ay az d))
                < min_amplitude_g (m_cfg (after_accumulate ax ay az d))
      then Inl (after_accumulate ax ay az d,
                if m_total (after_accumulate ax ay az d) mod 10 = 0
                then emit_dbg (filtered_mag ax ay az d) (filtered_mag ax ay az d)
                       (Ring_avg (m_sta (after_accumulate ax ay az d)))
                       (Ring_avg (m_lta (after_accumulate ax ay az d))) 0
                       (Ring_var (m_cal (after_accumulate ax ay az d)))
                       (adaptive_at (after_accumulate ax ay az d)) t (after_accumulate ax ay az d)
                else [])
      else Inr (after_accumulate ax ay az d,
                (if m_total (after_accumulate ax ay az d) mod 10 = 0
                 then emit_dbg (filtered_mag ax ay az d) (filtered_mag ax ay az d)
                       (Ring_avg (m_sta (after_accumulate ax ay az d)))
                       (Ring_avg (m_lta (after_accumulate ax ay az d)))
                       (Ring_avg (m_sta (after_accumulate ax ay az d))
                          / Ring_avg (m_lta (after_accumulate ax ay az d)))
                       (Ring_var (m_cal (after_accumulate ax ay az d)))
                       (adaptive_at (after_accumulate ax ay az d)) t (after_accumulate ax ay az d)
                 else []),
                fst (filtered ax ay az d), fst (snd (filtered ax ay az d)),
                snd (snd (filtered ax ay az d)), filtered_mag ax ay az d,
                Ring_avg (m_sta (after_accumulate ax ay az d))
                  / Ring_avg (m_lta (after_accumulate ax ay az d)),
                adaptive_at (after_accumulate ax ay az d)))"
    unfolding pre_switch_def Let_def split_beta
    apply (simp only: SeismicDetector.simps fst_conv snd_conv f)
    apply (simp only: m)
    apply (simp only: a)
    apply (simp add: word_greater_zero_iff)
    done
  then show ?thesis
    by (simp add: telemetry_def Let_def after_accumulate_frame)
qed

lemma telemetry_nil:
  "(m_total d + 1) mod 10 \<noteq> 0 \<or> \<not> m_on_dbg d \<Longrightarrow> telemetry ax ay az t d = []"
  by (auto simp: telemetry_def Let_def emit_dbg_def after_accumulate_frame)

lemma telemetry_count:
  "filter is_event (telemetry ax ay az t d) = []"
  "length (filter is_debug (telemetry ax ay az t d)) =
     (if m_on_dbg d \<and> (m_total d + 1) mod 10 = 0 then 1 else 0)"
  by (simp_all add: telemetry_def Let_def emit_dbg_def after_accumulate_frame)

lemma process_sample_eq:
  "process_sample ax ay az t d =
     (if m_cd d \<noteq> 0 then (d\<lparr> m_total := m_total d + 1, m_cd := m_cd d - 1 \<rparr>, [])
      else if \<not> Ring_full (m_lta (after_accumulate ax ay az d))
      then (after_accumulate ax ay az d, [])
      else if Ring_avg (m_lta (after_accumulate ax ay az d)) < min_amplitude_g (m_cfg d)
      then (after_accumulate ax ay az d, telemetry ax ay az t d)
      else (fst (engine ax ay az t d), telemetry ax ay az t d @ snd (engine ax ay az t d)))"
  by (simp add: process_sample_def pre_switch_eq split_beta engine_def sta_lta_ratio_def)

lemma process_sample_switch:
  "reaches_switch ax ay az d \<Longrightarrow>
   process_sample ax ay az t d =
     (fst (engine ax ay az t d), telemetry ax ay az t d @ snd (engine ax ay az t d))"
  by (simp add: process_sample_eq reaches_switch_def)

lemma process_sample_no_switch:
  "\<not> reaches_switch ax ay az d \<Longrightarrow>
   m_st (fst (process_sample ax ay az t d)) = m_st d
   \<and> m_lr (fst (process_sample ax ay az t d)) = m_lr d
   \<and> filter is_event (snd (process_sample ax ay az t d)) = []"
  by (auto simp: process_sample_eq reaches_switch_def after_accumulate_frame telemetry_count)

lemma engine_frame:
  "m_cfg (fst (engine ax ay az t d)) = m_cfg d"
  "m_lta (fst (engine ax ay az t d)) = m_lta (after_accumulate ax ay az d)"
  "m_total (fst (engine ax ay az t d)) = m_total d + 1"
  "m_on_dbg (fst (engine ax ay az t d)) = m_on_dbg d"
  "filter is_debug (snd (engine ax ay az t d)) = []"
  by (simp_all add: engine_def split_beta trigger_engine_frame trigger_engine_no_debug
        after_accumulate_frame)

lemma tracked_frame:
  "m_cfg (tracked ax ay az d) = m_cfg d"
  "m_sc (tracked ax ay az d) = m_sc d + 1"
  "m_st (tracked ax ay az d) = m_st d"
  by (simp_all add: tracked_def confirm_track_def split_beta after_accumulate_frame
        after_accumulate_def accumulate_def filter_axes_def Let_def)

lemma candidate_eq:
  "candidate ax ay az t d =
     (if reaches_switch ax ay az d \<and> m_st d = CONFIRM
          \<and> adaptive_at (after_accumulate ax ay az d) \<le> sta_lta_ratio ax ay az d
          \<and> min_sustained (m_cfg d) \<le> m_sc d + 1
      then Some (tracked ax ay az d) else None)"
  by (simp add: candidate_def pre_switch_eq reaches_switch_def tracked_def split_beta
        sta_lta_ratio_def after_accumulate_frame after_accumulate_sc confirm_track_def)

lemma engine_candidate:
  assumes "m_st d = CONFIRM"
    and "adaptive_at (after_accumulate ax ay az d) \<le> sta_lta_ratio ax ay az d"
    and "min_sustained (m_cfg d) \<le> m_sc d + 1"
  shows "engine ax ay az t d =
           (if check_reject (tracked ax ay az d) \<noteq> RC_NONE
            then ((tracked ax ay az d)\<lparr> m_lr := check_reject (tracked ax ay az d), m_st := IDLE,
                                        m_cd := cooldown (m_cfg d) \<rparr>, [])
            else ((tracked ax ay az d)\<lparr> m_st := TRIGGERED, m_dur := m_sc d + 1 \<rparr>,
                  fire t (sta_lta_ratio ax ay az d)
                    ((tracked ax ay az d)\<lparr> m_st := TRIGGERED, m_dur := m_sc d + 1 \<rparr>)))"
proof -
  have c: "m_sc (confirm_track fx fy fz m d') = m_sc d' + 1"
     "m_cfg (confirm_track fx fy fz m d') = m_cfg d'" for fx fy fz m d'
    by (simp_all add: confirm_track_def split_beta)
  have sc: "m_sc (after_accumulate ax ay az d) = m_sc d"
    by (simp add: after_accumulate_def accumulate_def filter_axes_def Let_def split_beta)
  show ?thesis
    using assms
    by (simp add: engine_def tracked_def split_beta trigger_engine_def after_accumulate_frame
          Let_def c sc)
qed

lemma engine_other:
  assumes "\<not> (m_st d = CONFIRM
              \<and> adaptive_at (after_accumulate ax ay az d) \<le> sta_lta_ratio ax ay az d
              \<and> min_sustained (m_cfg d) \<le> m_sc d + 1)"
  shows "(m_lr (fst (engine ax ay az t d)) = m_lr d \<or> m_lr (fst (engine ax ay az t d)) = RC_NONE)
         \<and> (m_st (fst (engine ax ay az t d)) = TRIGGERED \<longrightarrow> m_st d = TRIGGERED)"
proof -
  have c: "m_sc (confirm_track fx fy fz m d') = m_sc d' + 1"
     "m_cfg (confirm_track fx fy fz m d') = m_cfg d'"
     "m_lr (confirm_track fx fy fz m d') = m_lr d'"
     "m_st (confirm_track fx fy fz m d') = m_st d'" for fx fy fz m d'
    by (simp_all add: confirm_track_def split_beta)
  have sc: "m_sc (after_accumulate ax ay az d) = m_sc d"
    by (simp add: after_accumulate_def accumulate_def filter_axes_def Let_def split_beta)
  show ?thesis
    using assms
    by (cases "m_st d";
        simp add: engine_def split_beta trigger_engine_def after_accumulate_frame Let_def c sc
          reset_st_def)
qed

lemma engine_triggered:
  assumes "m_st d = TRIGGERED"
  shows "m_st (fst (engine ax ay az t d)) \<noteq> TRIGGERED \<or> filter is_event (snd (engine ax ay az t d)) \<noteq> []
         \<Longrightarrow> m_cd (fst (engine ax ay az t d)) = cooldown (m_cfg d)"
  using assms
  by (simp add: engine_def split_beta trigger_engine_def after_accumulate_frame Let_def
        reset_st_def split: if_splits)

text \<open>
  C6. A sample is a candidate when it reaches the \<open>switch\<close> in state \<open>CONFIRM\<close> with
  \<open>r \<ge> at\<close> and the incremented sustained count reaches \<open>min_sustained\<close>. On a
  candidate sample the cascade decides the sample: a reject code is recorded, the state is
  \<open>IDLE\<close>, the cooldown is armed and no event is emitted; or no check fails and the state is
  \<open>TRIGGERED\<close>. Either way the detector has left \<open>CONFIRM\<close>, so the same candidate is
  not evaluated again. On any other sample no reject code is recorded and \<open>TRIGGERED\<close> is
  not entered. The code returned is that of the first failing check in the order axis
  coherence, frequency, periodicity, energy distribution.
\<close>

theorem C6_rejection_cascade:
  "(candidate ax ay az t d = Some c \<longrightarrow>
      m_st d = CONFIRM
      \<and> m_st (fst (process_sample ax ay az t d)) \<noteq> CONFIRM
      \<and> (check_reject c \<noteq> RC_NONE \<longrightarrow>
           fst (process_sample ax ay az t d) =
             c\<lparr> m_lr := check_reject c, m_st := IDLE, m_cd := cooldown (m_cfg d) \<rparr>
           \<and> filter is_event (snd (process_sample ax ay az t d)) = [])
      \<and> (check_reject c = RC_NONE \<longrightarrow>
           fst (process_sample ax ay az t d) = c\<lparr> m_st := TRIGGERED, m_dur := m_sc c \<rparr>
           \<and> m_lr (fst (process_sample ax ay az t d)) = m_lr d))
   \<and> (candidate ax ay az t d = None \<longrightarrow>
        (m_lr (fst (process_sample ax ay az t d)) = m_lr d
         \<or> m_lr (fst (process_sample ax ay az t d)) = RC_NONE)
        \<and> (m_st (fst (process_sample ax ay az t d)) = TRIGGERED \<longrightarrow> m_st d = TRIGGERED))
   \<and> check_reject c =
       (if axis_fails c then AXIS_COHERENCE
        else if frequency_fails c then FREQUENCY
        else if periodicity_fails c then PERIODICITY
        else if energy_fails c then ENERGY_DIST
        else RC_NONE)"
proof -
  have A: "m_st d = CONFIRM
      \<and> m_st (fst (process_sample ax ay az t d)) \<noteq> CONFIRM
      \<and> (check_reject c \<noteq> RC_NONE \<longrightarrow>
           fst (process_sample ax ay az t d) =
             c\<lparr> m_lr := check_reject c, m_st := IDLE, m_cd := cooldown (m_cfg d) \<rparr>
           \<and> filter is_event (snd (process_sample ax ay az t d)) = [])
      \<and> (check_reject c = RC_NONE \<longrightarrow>
           fst (process_sample ax ay az t d) = c\<lparr> m_st := TRIGGERED, m_dur := m_sc c \<rparr>
           \<and> m_lr (fst (process_sample ax ay az t d)) = m_lr d)"
    if "candidate ax ay az t d = Some c"
  proof -
    from that have h: "reaches_switch ax ay az d" "m_st d = CONFIRM"
        "adaptive_at (after_accumulate ax ay az d) \<le> sta_lta_ratio ax ay az d"
        "min_sustained (m_cfg d) \<le> m_sc d + 1" "c = tracked ax ay az d"
      by (simp_all add: candidate_eq split: if_splits)
    have lr: "m_lr (tracked ax ay az d) = m_lr d"
      by (simp add: tracked_def confirm_track_def split_beta after_accumulate_frame)
    show ?thesis
      using h(2)
      by (simp add: process_sample_switch [OF h(1)] engine_candidate [OF h(2,3,4)] h(5)
            telemetry_count tracked_frame lr)
  qed
  have B: "(m_lr (fst (process_sample ax ay az t d)) = m_lr d
         \<or> m_lr (fst (process_sample ax ay az t d)) = RC_NONE)
        \<and> (m_st (fst (process_sample ax ay az t d)) = TRIGGERED \<longrightarrow> m_st d = TRIGGERED)"
    if "candidate ax ay az t d = None"
  proof (cases "reaches_switch ax ay az d")
    case False
    from process_sample_no_switch [OF this] show ?thesis by simp
  next
    case True
    with that have "\<not> (m_st d = CONFIRM
              \<and> adaptive_at (after_accumulate ax ay az d) \<le> sta_lta_ratio ax ay az d
              \<and> min_sustained (m_cfg d) \<le> m_sc d + 1)"
      by (simp add: candidate_eq split: if_splits)
    from engine_other [OF this] show ?thesis
      by (simp add: process_sample_switch [OF True])
  qed
  from A B check_reject_order show ?thesis by blast
qed

text \<open>
  C3 (as the code has it). With a debug callback, a call to \<open>process_sample\<close> makes exactly
  one debug callback when the sample is not swallowed by the cooldown, the LTA ring is full
  after the push and the 64-bit sample counter, after its increment, is divisible by 10; it
  makes none on any other call.
\<close>

theorem C3_debug_cadence:
  "m_on_dbg d \<Longrightarrow>
   length (filter is_debug (snd (process_sample ax ay az t d))) =
     (if m_cd d = 0
         \<and> Ring_full (m_lta (fst (process_sample ax ay az t d)))
         \<and> m_total (fst (process_sample ax ay az t d)) mod 10 = 0
      then 1 else 0)"
  by (simp add: process_sample_eq telemetry_count telemetry_nil engine_frame
        after_accumulate_frame)

section \<open>The short run, sample by sample\<close>

lemma magnitude_122: "y = 2 * x \<Longrightarrow> z = 2 * x \<Longrightarrow> magnitude x y z = 3 * \<bar>x\<bar>"
proof -
  assume "y = 2 * x" "z = 2 * x"
  then have "x * x + y * y + z * z = (3 * x)\<^sup>2" by (simp add: power2_eq_square)
  then show ?thesis unfolding magnitude_def by (simp only: real_sqrt_abs abs_mult)
qed

lemma clamp_le: "lo \<le> hi \<Longrightarrow> clamp v lo hi \<le> hi"
  by (simp add: clamp_def)

lemma adaptive_at_le:
  "adaptive_trig_min (m_cfg d) \<le> adaptive_trig_max (m_cfg d) \<Longrightarrow>
   adaptive_trig_max (m_cfg d) \<le> r \<Longrightarrow> adaptive_at d \<le> r"
  unfolding adaptive_at_def using clamp_le by (meson order_trans)

lemmas filter_defs = filter_axes_def GravityEstimator_update_def linX_def linY_def linZ_def
  BandPassFilter_process_def Biquad_process_def HighPassState_process_def kAlpha_def
  Let_def split_beta bp_state_def BandPassFilter_new_def

lemmas small_defs = rest9_def quiet_state_def quiet_ring_def small_detector_def
  update_config_def apply_cfg_def set_cap_def Ring_reset_def SeismicDetector_new_def
  small_config_def default_config_def u32_of_float_def Ring_new_def

lemma small_config_fields:
  "hp_alpha small_config = 49 / 50" "min_amplitude_g small_config = 3 / 250"
  "adaptive_trig_min small_config = 7 / 2" "adaptive_trig_max small_config = 8"
  "min_sustained small_config = 2" "sta_lta_detrigger small_config = 3 / 2"
  "cooldown small_config = 500" "axis_coherence_min small_config = 2 / 5"
  "pwave_freq_min small_config = 1" "pwave_freq_max small_config = 15"
  "sample_rate_hz small_config = 50"
  by (simp_all add: small_config_def default_config_def)

lemma rest9_fields:
  "m_cfg rest9 = small_config" "m_total rest9 = 9"
  "m_grav rest9 = GravityEstimator_new"
  "m_bpx rest9 = bp_state 0 0 0 0" "m_bpy rest9 = bp_state 0 0 0 0"
  "m_bpz rest9 = bp_state 0 0 0 0"
  "m_hx rest9 = HighPassState_new" "m_hy rest9 = HighPassState_new"
  "m_hz rest9 = HighPassState_new"
  "m_sta rest9 = quiet_ring 1 9" "m_lta rest9 = quiet_ring 10 9"
  "m_cal rest9 = quiet_ring 2500 9" "m_per rest9 = quiet_ring 200 9"
  "m_st rest9 = IDLE" "m_sc rest9 = 0" "m_dur rest9 = 0" "m_cd rest9 = 0" "m_zc rest9 = 0"
  "m_pk rest9 = 0" "m_t0 rest9 = 0" "m_ps rest9 = False" "m_ap rest9 = (0, 0, 0)"
  "m_ae rest9 = (0, 0, 0)" "m_lr rest9 = RC_NONE" "m_on_ev rest9 = True"
  "m_on_dbg rest9 = True"
  by (simp_all add: small_defs bp_state_def BandPassFilter_new_def)

lemma burst1_fields:
  "m_cfg burst1 = small_config" "m_total burst1 = 10"
  "m_grav burst1 = burst1_grav" "m_bpx burst1 = burst1_bpx" "m_bpy burst1 = burst1_bpy"
  "m_bpz burst1 = burst1_bpy" "m_hx burst1 = burst1_hx" "m_hy burst1 = burst1_hy"
  "m_hz burst1 = burst1_hy" "m_sta burst1 = burst1_sta" "m_lta burst1 = burst1_lta"
  "m_cal burst1 = burst1_cal" "m_per burst1 = burst1_per"
  "m_st burst1 = CONFIRM" "m_sc burst1 = 1" "m_cd burst1 = 0"
  "m_on_ev burst1 = True" "m_on_dbg burst1 = True" "m_lr burst1 = RC_NONE"
  by (simp_all add: burst1_def rest9_fields)

lemma burst2_fields:
  "m_cfg burst2 = small_config" "m_total burst2 = 11"
  "m_grav burst2 = burst2_grav" "m_bpx burst2 = burst2_bpx" "m_bpy burst2 = burst2_bpy"
  "m_bpz burst2 = burst2_bpy" "m_hx burst2 = burst2_hx" "m_hy burst2 = burst2_hy"
  "m_hz burst2 = burst2_hy" "m_sta burst2 = burst2_sta" "m_lta burst2 = burst2_lta"
  "m_cal burst2 = burst2_cal" "m_per burst2 = burst2_per"
  "m_st burst2 = TRIGGERED" "m_sc burst2 = 2" "m_cd burst2 = 0"
  "m_on_ev burst2 = True" "m_on_dbg burst2 = True" "m_lr burst2 = RC_NONE"
  by (simp_all add: burst2_def burst1_fields)

text \<open>Sample 10: the burst begins.\<close>

lemma burst1_filter:
  "filter_axes (1 / 5) (2 / 5) (- (3 / 5)) (rest9\<lparr> m_total := 10 \<rparr>) =
     (rest9\<lparr> m_total := 10, m_grav := burst1_grav, m_bpx := burst1_bpx,
             m_bpy := burst1_bpy, m_bpz := burst1_bpy,
             m_hx := burst1_hx, m_hy := burst1_hy, m_hz := burst1_hy \<rparr>,
      prev_filt burst1_hx, prev_filt burst1_hy, prev_filt burst1_hy)"
  by (simp add: filter_defs rest9_fields small_config_fields GravityEstimator_new_def
        HighPassState_new_def burst1_grav_def burst1_bpx_def burst1_bpy_def burst1_hx_def
        burst1_hy_def)

lemma burst1_filtered:
  "filtered (1 / 5) (2 / 5) (- (3 / 5)) rest9 =
     (prev_filt burst1_hx, prev_filt burst1_hy, prev_filt burst1_hy)"
  using burst1_filter by (simp add: filtered_def filter_axes_total [symmetric, where v = 10])

lemma burst1_magnitude:
  "filtered_mag (1 / 5) (2 / 5) (- (3 / 5)) rest9 = burst1_mag"
  by (simp add: filtered_mag_def burst1_filtered)
     (simp add: burst1_hx_def burst1_hy_def burst1_mag_def magnitude_122)

lemma burst1_acc:
  "after_accumulate (1 / 5) (2 / 5) (- (3 / 5)) rest9 =
     rest9\<lparr> m_total := 10, m_grav := burst1_grav, m_bpx := burst1_bpx,
             m_bpy := burst1_bpy, m_bpz := burst1_bpy,
             m_hx := burst1_hx, m_hy := burst1_hy, m_hz := burst1_hy,
             m_sta := burst1_sta, m_lta := burst1_lta,
             m_cal := burst1_cal, m_per := burst1_per \<rparr>"
  by (simp add: after_accumulate_def burst1_magnitude rest9_fields burst1_filter accumulate_def)
     (simp add: Ring_push_def quiet_ring_def burst1_mag_def burst1_sta_def burst1_lta_def
        burst1_cal_def burst1_per_def)

lemma burst1_step:
  "fst (process_sample (1 / 5) (2 / 5) (- (3 / 5)) 180 rest9) = burst1"
proof -
  let ?A = "after_accumulate (1 / 5) (2 / 5) (- (3 / 5)) rest9"
  have full: "Ring_full (m_lta ?A)" "\<not> Ring_avg (m_lta ?A) < min_amplitude_g (m_cfg rest9)"
    by (simp_all add: burst1_acc rest9_fields small_config_fields burst1_lta_def Ring_full_def
          Ring_avg_def)
  have rs: "reaches_switch (1 / 5) (2 / 5) (- (3 / 5)) rest9"
    using full by (simp add: reaches_switch_def rest9_fields)
  have r: "sta_lta_ratio (1 / 5) (2 / 5) (- (3 / 5)) rest9 = 10"
    by (simp add: sta_lta_ratio_def burst1_acc burst1_sta_def burst1_lta_def Ring_avg_def)
  have thr: "adaptive_at ?A \<le> 10"
    by (rule adaptive_at_le)
       (simp_all add: after_accumulate_frame rest9_fields small_config_fields)
  show ?thesis
    unfolding process_sample_switch [OF rs] fst_conv engine_def burst1_filtered
      burst1_magnitude r prod.case
    using thr
    by (simp add: trigger_engine_def after_accumulate_frame rest9_fields)
       (simp add: burst1_acc burst1_def burst1_hx_def burst1_hy_def burst1_mag_def,
        rule SeismicDetector.equality; simp add: rest9_fields)
qed

text \<open>Sample 11: the sustained count reaches \<open>min_sustained\<close>, no check rejects.\<close>

lemma burst2_filter:
  "filter_axes (- 2) (- 4) (- 5) (burst1\<lparr> m_total := 11 \<rparr>) =
     (burst1\<lparr> m_total := 11, m_grav := burst2_grav, m_bpx := burst2_bpx,
             m_bpy := burst2_bpy, m_bpz := burst2_bpy,
             m_hx := burst2_hx, m_hy := burst2_hy, m_hz := burst2_hy \<rparr>,
      prev_filt burst2_hx, prev_filt burst2_hy, prev_filt burst2_hy)"
  by (simp add: filter_defs burst1_fields small_config_fields
        burst1_grav_def burst1_bpx_def burst1_bpy_def burst1_hx_def burst1_hy_def
        burst2_grav_def burst2_bpx_def burst2_bpy_def burst2_hx_def burst2_hy_def)

lemma burst2_filtered:
  "filtered (- 2) (- 4) (- 5) burst1 =
     (prev_filt burst2_hx, prev_filt burst2_hy, prev_filt burst2_hy)"
  using burst2_filter by (simp add: filtered_def filter_axes_total [symmetric, where v = 11])

lemma burst2_magnitude:
  "filtered_mag (- 2) (- 4) (- 5) burst1 = burst2_mag"
  by (simp add: filtered_mag_def burst2_filtered)
     (simp add: burst2_hx_def burst2_hy_def burst2_mag_def magnitude_122)

lemma burst2_acc:
  "after_accumulate (- 2) (- 4) (- 5) burst1 =
     burst1\<lparr> m_total := 11, m_grav := burst2_grav, m_bpx := burst2_bpx,
             m_bpy := burst2_bpy, m_bpz := burst2_bpy,
             m_hx := burst2_hx, m_hy := burst2_hy, m_hz := burst2_hy,
             m_sta := burst2_sta, m_lta := burst2_lta,
             m_cal := burst2_cal, m_per := burst2_per \<rparr>"
  by (simp add: after_accumulate_def burst2_magnitude burst1_fields burst2_filter accumulate_def)
     (simp add: Ring_push_def burst2_mag_def burst1_sta_def burst1_lta_def
        burst1_cal_def burst1_per_def burst2_sta_def burst2_lta_def
        burst2_cal_def burst2_per_def)

lemma burst2_step:
  "process_sample (- 2) (- 4) (- 5) 200 burst1 =
     (burst2,
      [OnEvent
         \<lparr> level = CRITICAL, peak_g = (13073230969686435303 /
        10000000000000000000), sta_lta = (1630390 / 183039), freq_hz = (25 / 2), time_ms = 180,
        duration = 2 \<rparr>])"
proof -
  let ?A = "after_accumulate (- 2) (- 4) (- 5) burst1"
  have full: "Ring_full (m_lta ?A)" "\<not> Ring_avg (m_lta ?A) < min_amplitude_g (m_cfg burst1)"
    by (simp_all add: burst2_acc burst1_fields small_config_fields burst2_lta_def Ring_full_def
          Ring_avg_def)
  have rs: "reaches_switch (- 2) (- 4) (- 5) burst1"
    using full by (simp add: reaches_switch_def burst1_fields)
  have r: "sta_lta_ratio (- 2) (- 4) (- 5) burst1 = 1630390 / 183039"
    by (simp add: sta_lta_ratio_def burst2_acc burst2_sta_def burst2_lta_def Ring_avg_def)
  have thr: "adaptive_at ?A \<le> sta_lta_ratio (- 2) (- 4) (- 5) burst1"
    unfolding r
    by (rule adaptive_at_le)
       (simp_all add: after_accumulate_frame burst1_fields small_config_fields)
  have ms: "min_sustained (m_cfg burst1) \<le> m_sc burst1 + 1"
    by (simp add: burst1_fields small_config_fields)
  have tr: "tracked (- 2) (- 4) (- 5) burst1 =
              burst1\<lparr> m_total := 11, m_grav := burst2_grav, m_bpx := burst2_bpx,
                 m_bpy := burst2_bpy, m_bpz := burst2_bpy,
                 m_hx := burst2_hx, m_hy := burst2_hy, m_hz := burst2_hy,
                 m_sta := burst2_sta, m_lta := burst2_lta,
                 m_cal := burst2_cal, m_per := burst2_per,
                 m_sc := 2, m_pk := m_pk burst2, m_ap := m_ap burst2, m_ae := m_ae burst2,
                 m_zc := 1, m_ps := False \<rparr>"
    by (simp add: tracked_def burst2_filtered burst2_magnitude confirm_track_def split_beta
          burst2_acc burst1_fields)
       (simp add: burst1_def burst2_def burst2_hx_def burst2_hy_def burst2_mag_def)
  have cr: "check_reject (tracked (- 2) (- 4) (- 5) burst1) = RC_NONE"
    unfolding tr
    by (simp add: check_reject_def burst1_fields small_config_fields Let_def dt_def
          Ring_full_def burst2_per_def)
       (simp add: burst2_def max3_def min3_def)
  have tel: "telemetry (- 2) (- 4) (- 5) 200 burst1 = []"
    by (rule telemetry_nil) (simp add: burst1_fields)
  have fin: "(tracked (- 2) (- 4) (- 5) burst1)\<lparr> m_st := TRIGGERED, m_dur := m_sc burst1 + 1 \<rparr>
               = burst2"
    unfolding tr
    by (simp add: burst2_def burst1_fields, rule SeismicDetector.equality;
        simp add: burst1_def rest9_fields)
  have ev: "fire 200 (1630390 / 183039) burst2 =
      [OnEvent
         \<lparr> level = CRITICAL, peak_g = (13073230969686435303 /
        10000000000000000000), sta_lta = (1630390 / 183039), freq_hz = (25 / 2), time_ms = 180,
        duration = 2 \<rparr>]"
    by (simp add: fire_def burst2_fields small_config_fields dt_def)
       (simp add: burst2_def burst1_def severity_def)
  show ?thesis
    unfolding process_sample_switch [OF rs] engine_candidate [OF burst1_fields(14) thr ms] tel
    by (simp add: cr fin r ev)
qed

lemma burst2_machine:
  "m_dur burst2 = 2" "m_pk burst2 = burst2_mag" "m_zc burst2 = 1" "m_t0 burst2 = 180"
  by (simp_all add: burst2_def burst2_mag_def)

text \<open>Sample 12: the ratio falls below the exit ratio.\<close>

lemma burst3_filter:
  "filter_axes (18 / 5) (36 / 5) (31 / 5) (burst2\<lparr> m_total := 12 \<rparr>) =
     (burst2\<lparr> m_total := 12, m_grav := burst3_grav, m_bpx := burst3_bpx,
             m_bpy := burst3_bpy, m_bpz := burst3_bpy,
             m_hx := burst3_hx, m_hy := burst3_hy, m_hz := burst3_hy \<rparr>,
      prev_filt burst3_hx, prev_filt burst3_hy, prev_filt burst3_hy)"
  by (simp add: filter_defs burst2_fields small_config_fields
        burst2_grav_def burst2_bpx_def burst2_bpy_def burst2_hx_def burst2_hy_def
        burst3_grav_def burst3_bpx_def burst3_bpy_def burst3_hx_def burst3_hy_def)

lemma burst3_filtered:
  "filtered (18 / 5) (36 / 5) (31 / 5) burst2 =
     (prev_filt burst3_hx, prev_filt burst3_hy, prev_filt burst3_hy)"
  using burst3_filter by (simp add: filtered_def filter_axes_total [symmetric, where v = 12])

lemma burst3_magnitude:
  "filtered_mag (18 / 5) (36 / 5) (31 / 5) burst2 = burst3_mag"
  by (simp add: filtered_mag_def burst3_filtered)
     (simp add: burst3_hx_def burst3_hy_def burst3_mag_def magnitude_122)

lemma burst3_acc:
  "after_accumulate (18 / 5) (36 / 5) (31 / 5) burst2 =
     burst2\<lparr> m_total := 12, m_grav := burst3_grav, m_bpx := burst3_bpx,
             m_bpy := burst3_bpy, m_bpz := burst3_bpy,
             m_hx := burst3_hx, m_hy := burst3_hy, m_hz := burst3_hy,
             m_sta := burst3_sta, m_lta := burst3_lta,
             m_cal := burst3_cal, m_per := burst3_per \<rparr>"
  by (simp add: after_accumulate_def burst3_magnitude burst2_fields burst3_filter accumulate_def)
     (simp add: Ring_push_def burst3_mag_def burst2_sta_def burst2_lta_def
        burst2_cal_def burst2_per_def burst3_sta_def burst3_lta_def
        burst3_cal_def burst3_per_def)

lemma burst3_step:
  "process_sample (18 / 5) (36 / 5) (31 / 5) 220 burst2 =
     (burst3,
      [OnEvent
         \<lparr> level = CRITICAL, peak_g = (13073230969686435303 /
        10000000000000000000), sta_lta = (125050630 / 1232765063), freq_hz = (25 / 2), time_ms =
        180, duration = 3 \<rparr>])"
proof -
  let ?A = "after_accumulate (18 / 5) (36 / 5) (31 / 5) burst2"
  have full: "Ring_full (m_lta ?A)" "\<not> Ring_avg (m_lta ?A) < min_amplitude_g (m_cfg burst2)"
    by (simp_all add: burst3_acc burst2_fields small_config_fields burst3_lta_def Ring_full_def
          Ring_avg_def)
  have rs: "reaches_switch (18 / 5) (36 / 5) (31 / 5) burst2"
    using full by (simp add: reaches_switch_def burst2_fields)
  have r: "sta_lta_ratio (18 / 5) (36 / 5) (31 / 5) burst2 = 125050630 / 1232765063"
    by (simp add: sta_lta_ratio_def burst3_acc burst3_sta_def burst3_lta_def Ring_avg_def)
  have tel: "telemetry (18 / 5) (36 / 5) (31 / 5) 220 burst2 = []"
    by (rule telemetry_nil) (simp add: burst2_fields)
  have mx: "max burst2_mag burst3_mag = burst2_mag"
    by (simp add: burst2_mag_def burst3_mag_def)
  have eng: "engine (18 / 5) (36 / 5) (31 / 5) 220 burst2 =
      (reset_st (?A\<lparr> m_dur := 3, m_pk := burst2_mag \<rparr>),
       fire 220 (125050630 / 1232765063) (?A\<lparr> m_dur := 3, m_pk := burst2_mag \<rparr>))"
    unfolding engine_def burst3_filtered burst3_magnitude r prod.case
    by (simp add: trigger_engine_def after_accumulate_frame burst2_fields small_config_fields
          Let_def burst2_machine mx)
       (simp add: burst3_acc burst2_machine mx)
  have fin: "reset_st (?A\<lparr> m_dur := 3, m_pk := burst2_mag \<rparr>) = burst3"
    by (simp add: reset_st_def burst3_acc burst2_fields small_config_fields burst3_def)
  have ev: "fire 220 (125050630 / 1232765063) (?A\<lparr> m_dur := 3, m_pk := burst2_mag \<rparr>) =
      [OnEvent
         \<lparr> level = CRITICAL, peak_g = (13073230969686435303 /
        10000000000000000000), sta_lta = (125050630 / 1232765063), freq_hz = (25 / 2), time_ms =
        180, duration = 3 \<rparr>]"
    by (simp add: fire_def after_accumulate_frame after_accumulate_sc burst2_fields
          small_config_fields dt_def)
       (simp add: burst3_acc burst2_machine burst2_mag_def severity_def)
  show ?thesis
    unfolding process_sample_switch [OF rs] tel eng
    by (simp add: fin ev)
qed


section \<open>A detector at rest stays at rest\<close>

lemma magnitude_000: "magnitude 0 0 0 = 0"
  by (simp add: magnitude_def)

lemma filter_axes_rest:
  assumes "at_rest d"
  shows "filter_axes 0 0 (-1) d = (d, 0, 0, 0)"
proof -
  have b: "BandPassFilter_process 0 BandPassFilter_new = (BandPassFilter_new, 0)"
    by (simp add: BandPassFilter_process_def BandPassFilter_new_def Biquad_process_def)
  have h: "HighPassState_process 0 a HighPassState_new = (HighPassState_new, 0)" for a
    by (simp add: HighPassState_process_def HighPassState_new_def)
  have g: "GravityEstimator_update 0 0 (-1) GravityEstimator_new = GravityEstimator_new"
    by (simp add: GravityEstimator_update_def GravityEstimator_new_def)
  have l: "linX GravityEstimator_new 0 = 0" "linY GravityEstimator_new 0 = 0"
    "linZ GravityEstimator_new (-1) = 0"
    by (simp_all add: linX_def linY_def linZ_def GravityEstimator_new_def)
  from assms have r: "m_grav d = GravityEstimator_new"
     "m_bpx d = BandPassFilter_new" "m_bpy d = BandPassFilter_new" "m_bpz d = BandPassFilter_new"
     "m_hx d = HighPassState_new" "m_hy d = HighPassState_new" "m_hz d = HighPassState_new"
    by (simp_all add: at_rest_def)
  have "d\<lparr> m_grav := GravityEstimator_new, m_bpx := BandPassFilter_new,
           m_bpy := BandPassFilter_new, m_bpz := BandPassFilter_new,
           m_hx := HighPassState_new, m_hy := HighPassState_new, m_hz := HighPassState_new \<rparr> = d"
    using r by simp
  then show ?thesis
    by (simp add: filter_axes_def r g l b h)
qed

lemma push_quiet_ring:
  "0 < c \<Longrightarrow> Ring_push 0 (quiet_ring c k) = quiet_ring c (Suc k)"
  by (auto simp: Ring_push_def quiet_ring_def min_def mod_Suc)

lemma quiet_state_frame:
  "at_rest (quiet_state d k) = at_rest d"
  "m_cd (quiet_state d k) = m_cd d"
  "m_cfg (quiet_state d k) = m_cfg d"
  "m_on_dbg (quiet_state d k) = m_on_dbg d"
  "m_st (quiet_state d k) = m_st d"
  "m_lr (quiet_state d k) = m_lr d"
  "m_total (quiet_state d k) = of_nat k"
  by (simp_all add: quiet_state_def at_rest_def)

lemma after_quiet:
  assumes "at_rest d" "caps_pos d"
  shows "accumulate 0 (fst (filter_axes 0 0 (-1) ((quiet_state d k)\<lparr> m_total := of_nat k + 1 \<rparr>)))
         = quiet_state d (Suc k)"
proof -
  have "at_rest ((quiet_state d k)\<lparr> m_total := of_nat k + 1 \<rparr>)"
    using assms(1) by (simp add: at_rest_def quiet_state_def)
  from filter_axes_rest [OF this] show ?thesis
    using assms(2)
    by (simp add: accumulate_def caps_pos_def push_quiet_ring quiet_state_def add.commute)
qed

lemma quiet_step_warmup:
  assumes "at_rest d" "caps_pos d" "m_cd d = 0" "Suc k < r_cap (m_lta d)"
  shows "process_sample 0 0 (-1) t (quiet_state d k) = (quiet_state d (Suc k), [])"
proof -
  have r: "at_rest ((quiet_state d k)\<lparr> m_total := of_nat k + 1 \<rparr>)"
    using assms(1) by (simp add: at_rest_def quiet_state_def)
  have nf: "\<not> Ring_full (m_lta (quiet_state d (Suc k)))"
    using assms(4) by (simp add: quiet_state_def quiet_ring_def Ring_full_def)
  show ?thesis
    using nf after_quiet [OF assms(1,2), of k] assms(3)
    by (simp add: process_sample_def pre_switch_def Let_def quiet_state_frame
          filter_axes_rest [OF r] magnitude_000)
qed

lemma resting_Suc: "resting k (Suc j) = (0, 0, -1, 20 * of_nat k) # resting (Suc k) j"
proof -
  have "[k..<k + Suc j] = k # [Suc k..<Suc k + j]"
    by (simp add: upt_conv_Cons del: upt_Suc)
  then show ?thesis by (simp add: resting_def del: upt_Suc)
qed

lemma run_quiet:
  assumes "at_rest d" "caps_pos d" "m_cd d = 0"
  shows "k + j < r_cap (m_lta d) \<Longrightarrow>
         run (resting k j) (quiet_state d k) = (quiet_state d (k + j), [])"
proof (induction j arbitrary: k)
  case 0
  show ?case by (simp add: resting_def)
next
  case (Suc j)
  from Suc.prems have a: "Suc k < r_cap (m_lta d)" and b: "Suc k + j < r_cap (m_lta d)" by simp_all
  show ?case
    using quiet_step_warmup [OF assms a, of "20 * of_nat k"] Suc.IH [OF b]
    by (simp add: resting_Suc)
qed

lemma run_append:
  "run (xs @ ys) d =
     (fst (run ys (fst (run xs d))), snd (run xs d) @ snd (run ys (fst (run xs d))))"
  by (induction xs arbitrary: d) (auto simp: split_beta)

lemma run_single:
  "run [(ax, ay, az, t)] d = process_sample ax ay az t d"
  by (simp add: split_beta)

lemma quiet_ring_stats:
  "Ring_avg (quiet_ring c k) = 0" "Ring_var (quiet_ring c k) = 0"
  by (simp_all add: Ring_avg_def Ring_var_def quiet_ring_def)

lemma quiet_step_disarmed:
  assumes "at_rest d" "caps_pos d" "m_cd d = 0" "r_cap (m_lta d) \<le> Suc k"
    and "0 < min_amplitude_g (m_cfg d)"
  shows "process_sample 0 0 (-1) t (quiet_state d k) =
           (quiet_state d (Suc k),
            if m_total (quiet_state d (Suc k)) mod 10 = 0
            then emit_dbg 0 0 0 0 0 0 (adaptive_at (quiet_state d (Suc k))) t
                   (quiet_state d (Suc k))
            else [])"
proof -
  have r: "at_rest ((quiet_state d k)\<lparr> m_total := of_nat k + 1 \<rparr>)"
    using assms(1) by (simp add: at_rest_def quiet_state_def)
  have f: "Ring_full (m_lta (quiet_state d (Suc k)))"
    using assms(4) by (simp add: quiet_state_def quiet_ring_def Ring_full_def)
  have st: "Ring_avg (m_sta (quiet_state d (Suc k))) = 0"
    "Ring_avg (m_lta (quiet_state d (Suc k))) = 0"
    "Ring_var (m_cal (quiet_state d (Suc k))) = 0"
    by (simp_all add: quiet_state_def quiet_ring_stats)
  show ?thesis
    using f after_quiet [OF assms(1,2), of k] assms(3,5)
    by (simp add: process_sample_def pre_switch_def Let_def quiet_state_frame
          filter_axes_rest [OF r] magnitude_000 st)
qed

lemma new_at_rest: "at_rest (SeismicDetector_new e g)" "caps_pos (SeismicDetector_new e g)"
  by (simp_all add: at_rest_def caps_pos_def SeismicDetector_new_def apply_cfg_def set_cap_def
       Ring_reset_def default_config_def u32_of_float_def)

lemma new_quiet_0: "quiet_state (SeismicDetector_new e g) 0 = SeismicDetector_new e g"
  by (simp add: quiet_state_def quiet_ring_def SeismicDetector_new_def apply_cfg_def
       set_cap_def Ring_reset_def Ring_new_def default_config_def u32_of_float_def)

lemma new_lr: "m_lr (SeismicDetector_new e g) = RC_NONE"
  by (simp add: SeismicDetector_new_def apply_cfg_def)

lemma run_rest499:
  "run (resting 0 499) (SeismicDetector_new e g) = (quiet_state (SeismicDetector_new e g) 499, [])"
  using run_quiet [OF new_at_rest new_fields(1), of 0 499 e g]
  by (simp add: new_quiet_0 new_rings)

lemma resting_500: "resting 0 500 = resting 0 499 @ [(0, 0, -1, 9980)]"
proof -
  have "[0..<500] = [0..<499] @ [499]"
    using upt_Suc_append [of 0 499] by simp
  then show ?thesis by (simp add: resting_def)
qed

lemma sample500:
  "process_sample 0 0 (-1) 9980 (quiet_state (SeismicDetector_new True True) 499) =
     (quiet_state (SeismicDetector_new True True) 500,
      [OnDebug \<lparr> raw_mag = 0, filt_mag = 0, sta = 0, lta = 0, ratio = 0, baseline_var = 0,
                 adaptive_trigger = 4.5, state = IDLE, reject = RC_NONE, ts = 9980 \<rparr>])"
proof -
  let ?d = "SeismicDetector_new True True"
  have cap: "r_cap (m_lta ?d) \<le> Suc 499" by (simp add: new_rings)
  have amp: "0 < min_amplitude_g (m_cfg ?d)" by (simp add: new_fields default_config_def)
  note st = quiet_step_disarmed [OF new_at_rest new_fields(1) cap amp, where t = 9980]
  have thr: "adaptive_at (quiet_state ?d 500) = 4.5"
    by (simp add: adaptive_at_def quiet_state_def quiet_ring_stats new_fields default_config_def
          clamp_def)
  show ?thesis
    by (simp add: st thr new_lr emit_dbg_def quiet_state_frame new_fields)
qed

text \<open>
  C4 fails on the code. A fresh detector with a debug callback takes 500 samples of a phone
  at rest, \<open>(0, 0, -1)\<close> g. The only telemetry is emitted on the 500th sample; its
  raw-magnitude field holds 0, the magnitude after filtering, while the magnitude of the
  raw sample is 1 g.
\<close>

theorem C4_raw_mag_field_holds_filtered_magnitude:
  "snd (run (resting 0 500) (SeismicDetector_new True True)) =
     [OnDebug \<lparr> raw_mag = 0, filt_mag = 0, sta = 0, lta = 0, ratio = 0, baseline_var = 0,
                adaptive_trigger = 4.5, state = IDLE, reject = RC_NONE, ts = 9980 \<rparr>]
   \<and> last (resting 0 500) = (0, 0, -1, 9980)
   \<and> magnitude 0 0 (-1) = 1"
proof -
  have "magnitude 0 0 (-1) = 1" by (simp add: magnitude_def)
  then show ?thesis
    by (simp add: resting_500 run_append run_rest499 run_single sample500)
qed

lemma telemetry_raw_eq_filt:
  "OnDebug tel \<in> set (snd (process_sample ax ay az t d)) \<Longrightarrow>
   raw_mag tel = filtered_mag ax ay az d \<and> filt_mag tel = filtered_mag ax ay az d"
proof -
  assume a: "OnDebug tel \<in> set (snd (process_sample ax ay az t d))"
  have e: "OnDebug tel \<notin> set (snd (engine ax ay az t d))"
  proof
    assume "OnDebug tel \<in> set (snd (engine ax ay az t d))"
    then have "OnDebug tel \<in> set (filter is_debug (snd (engine ax ay az t d)))" by simp
    then show False by (simp add: engine_frame)
  qed
  from a e have "OnDebug tel \<in> set (telemetry ax ay az t d)"
    by (auto simp: process_sample_eq split: if_splits)
  then show ?thesis
    by (auto simp: telemetry_def Let_def emit_dbg_def split: if_splits)
qed

section \<open>The dynamic threshold\<close>

lemma clamp_spec: "lo \<le> hi \<Longrightarrow> clamp v lo hi = max lo (min hi v)"
  by (simp add: clamp_def max_def min_def)

lemma adaptive_at_spec:
  "adaptive_trig_min (m_cfg d) \<le> adaptive_trig_max (m_cfg d) \<Longrightarrow>
   adaptive_at d = spec_dynamic_threshold (m_cfg d) (Ring_var (m_cal d))"
  by (simp add: adaptive_at_def spec_dynamic_threshold_def clamp_spec)

text \<open>
  C7. Take a configuration with \<open>adaptive_trig_min \<le> adaptive_trig_max\<close> and a sample that
  reaches the trigger evaluation (not in cooldown, LTA ring full after the push). The
  threshold of that sample is the specification's clamp, taken on the variance of the
  calibration ring after the push of the current magnitude: every telemetry record of the
  sample reports that value and that variance, and when the detector is armed the \<open>switch\<close>
  is run with that value as \<open>at\<close>.
\<close>

theorem C7_dynamic_threshold:
  assumes "adaptive_trig_min (m_cfg d) \<le> adaptive_trig_max (m_cfg d)"
    and "m_cd d = 0"
    and "Ring_full (m_lta (after_accumulate ax ay az d))"
  shows "adaptive_at (after_accumulate ax ay az d) =
           spec_dynamic_threshold (m_cfg d)
             (Ring_var (Ring_push (filtered_mag ax ay az d) (m_cal d)))
     \<and> (\<forall>tel. OnDebug tel \<in> set (snd (process_sample ax ay az t d)) \<longrightarrow>
            adaptive_trigger tel =
              spec_dynamic_threshold (m_cfg d)
                (Ring_var (Ring_push (filtered_mag ax ay az d) (m_cal d)))
            \<and> baseline_var tel = Ring_var (Ring_push (filtered_mag ax ay az d) (m_cal d)))
     \<and> (\<not> Ring_avg (m_lta (after_accumulate ax ay az d)) < min_amplitude_g (m_cfg d) \<longrightarrow>
          fst (process_sample ax ay az t d) =
            fst (trigger_engine (fst (filtered ax ay az d)) (fst (snd (filtered ax ay az d)))
                   (snd (snd (filtered ax ay az d))) (filtered_mag ax ay az d)
                   (sta_lta_ratio ax ay az d)
                   (spec_dynamic_threshold (m_cfg d)
                      (Ring_var (Ring_push (filtered_mag ax ay az d) (m_cal d))))
                   t (after_accumulate ax ay az d)))"
proof -
  let ?thr = "spec_dynamic_threshold (m_cfg d)
                (Ring_var (Ring_push (filtered_mag ax ay az d) (m_cal d)))"
  have a: "adaptive_at (after_accumulate ax ay az d) = ?thr"
    using adaptive_at_spec [of "after_accumulate ax ay az d"] assms(1)
    by (simp add: after_accumulate_frame)
  have b: "adaptive_trigger tel = ?thr
           \<and> baseline_var tel = Ring_var (Ring_push (filtered_mag ax ay az d) (m_cal d))"
    if "OnDebug tel \<in> set (snd (process_sample ax ay az t d))" for tel
  proof -
    have e: "OnDebug tel \<notin> set (snd (engine ax ay az t d))"
    proof
      assume "OnDebug tel \<in> set (snd (engine ax ay az t d))"
      then have "OnDebug tel \<in> set (filter is_debug (snd (engine ax ay az t d)))" by simp
      then show False by (simp add: engine_frame)
    qed
    from that e have "OnDebug tel \<in> set (telemetry ax ay az t d)"
      by (auto simp: process_sample_eq split: if_splits)
    then show ?thesis
      using a by (auto simp: telemetry_def Let_def emit_dbg_def after_accumulate_frame
                    split: if_splits)
  qed
  have c: "fst (process_sample ax ay az t d) =
            fst (trigger_engine (fst (filtered ax ay az d)) (fst (snd (filtered ax ay az d)))
                   (snd (snd (filtered ax ay az d))) (filtered_mag ax ay az d)
                   (sta_lta_ratio ax ay az d) ?thr t (after_accumulate ax ay az d))"
    if "\<not> Ring_avg (m_lta (after_accumulate ax ay az d)) < min_amplitude_g (m_cfg d)"
    using that assms(2,3)
    by (simp add: process_sample_eq engine_def split_beta a)
  from a b c show ?thesis by blast
qed

theorem C7_dynamic_threshold_witness:
  "adaptive_at (after_accumulate 0 0 (- 1) (quiet_state (SeismicDetector_new True True) 499))
     = 9 / 2
   \<and> spec_dynamic_threshold default_config 0 = 9 / 2"
proof -
  let ?d = "quiet_state (SeismicDetector_new True True) 499"
  have r: "at_rest ?d" by (simp add: quiet_state_frame new_at_rest)
  have m: "filtered_mag 0 0 (- 1) ?d = 0"
    by (simp add: filtered_mag_def filtered_def filter_axes_rest [OF r] magnitude_000)
  have cal: "Ring_push 0 (m_cal ?d) = quiet_ring 2500 500"
    by (simp add: quiet_state_def new_rings push_quiet_ring)
  have lta: "Ring_push 0 (m_lta ?d) = quiet_ring 500 500"
    by (simp add: quiet_state_def new_rings push_quiet_ring)
  have h1: "adaptive_trig_min (m_cfg ?d) \<le> adaptive_trig_max (m_cfg ?d)"
    by (simp add: quiet_state_frame new_fields default_config_def)
  have h2: "m_cd ?d = 0" by (simp add: quiet_state_frame new_fields)
  have h3: "Ring_full (m_lta (after_accumulate 0 0 (- 1) ?d))"
    by (simp add: after_accumulate_frame m lta) (simp add: Ring_full_def quiet_ring_def)
  have s: "spec_dynamic_threshold default_config 0 = 9 / 2"
    by (simp add: spec_dynamic_threshold_def default_config_def)
  from C7_dynamic_threshold [OF h1 h2 h3, of 0] show ?thesis
    by (simp add: m cal quiet_ring_stats quiet_state_frame new_fields s)
qed

section \<open>Cooldown after the de-trigger edge and after a rejection\<close>

lemma candidate_rejected:
  assumes "candidate ax ay az t d = Some c" and "check_reject c \<noteq> RC_NONE"
  shows "m_cd (fst (process_sample ax ay az t d)) = cooldown (m_cfg d)"
proof -
  from assms(1) have h: "reaches_switch ax ay az d" "m_st d = CONFIRM"
      "adaptive_at (after_accumulate ax ay az d) \<le> sta_lta_ratio ax ay az d"
      "min_sustained (m_cfg d) \<le> m_sc d + 1" "c = tracked ax ay az d"
    by (simp_all add: candidate_eq split: if_splits)
  show ?thesis
    using assms(2)
    by (simp add: process_sample_switch [OF h(1)] engine_candidate [OF h(2,3,4)] h(5))
qed

lemma process_sample_total: "m_total (fst (process_sample ax ay az t d)) = m_total d + 1"
  by (simp add: process_sample_eq after_accumulate_frame engine_frame)

text \<open>
  C1 (as the code has it). When a sample makes the detector leave \<open>TRIGGERED\<close> (the de-trigger
  edge, where the second event of a pair is emitted), or when the cascade rejects a candidate,
  the cooldown counter is set to \<open>cooldown\<close>. A stream of at most \<open>cooldown\<close> further samples
  then changes nothing in the detector but the two counters (the total advances by one per
  sample, the cooldown counts down by one per sample) and makes no callback. The trigger edge
  is not in the statement: it does not arm the cooldown.
\<close>

theorem C1_cooldown_after_detrigger_or_rejection:
  assumes "(m_st d = TRIGGERED
            \<and> (m_st (fst (process_sample ax ay az t d)) \<noteq> TRIGGERED
               \<or> filter is_event (snd (process_sample ax ay az t d)) \<noteq> []))
           \<or> (candidate ax ay az t d = Some c \<and> check_reject c \<noteq> RC_NONE)"
    and "length xs \<le> unat (cooldown (m_cfg d))"
  shows "m_cd (fst (process_sample ax ay az t d)) = cooldown (m_cfg d)
     \<and> run xs (fst (process_sample ax ay az t d)) =
         ((fst (process_sample ax ay az t d))
            \<lparr> m_total := m_total d + 1 + of_nat (length xs),
              m_cd := cooldown (m_cfg d) - of_nat (length xs) \<rparr>, [])"
proof -
  let ?d' = "fst (process_sample ax ay az t d)"
  have cd: "m_cd ?d' = cooldown (m_cfg d)"
    using assms(1)
  proof
    assume a: "m_st d = TRIGGERED
            \<and> (m_st ?d' \<noteq> TRIGGERED \<or> filter is_event (snd (process_sample ax ay az t d)) \<noteq> [])"
    have rs: "reaches_switch ax ay az d"
    proof (rule ccontr)
      assume "\<not> reaches_switch ax ay az d"
      from process_sample_no_switch [OF this, of t] a show False by simp
    qed
    from a have "m_st (fst (engine ax ay az t d)) \<noteq> TRIGGERED
                 \<or> filter is_event (snd (engine ax ay az t d)) \<noteq> []"
      by (simp add: process_sample_switch [OF rs] telemetry_count)
    with engine_triggered [of d ax ay az t] a show ?thesis
      by (simp add: process_sample_switch [OF rs])
  next
    assume a: "candidate ax ay az t d = Some c \<and> check_reject c \<noteq> RC_NONE"
    then show ?thesis by (simp add: candidate_rejected)
  qed
  from assms(2) cd have "length xs \<le> unat (m_cd ?d')" by simp
  from run_cooldown [OF this] cd show ?thesis
    by (simp add: process_sample_total)
qed

section \<open>The short run as a stream\<close>

lemma small_detector_rest:
  "at_rest small_detector" "caps_pos small_detector" "m_cd small_detector = 0"
  "quiet_state small_detector 0 = small_detector" "r_cap (m_lta small_detector) = 10"
  by (simp_all add: at_rest_def caps_pos_def small_defs)

lemma run_rest9: "run (resting 0 9) small_detector = (rest9, [])"
  using run_quiet [OF small_detector_rest(1,2,3), of 0 9]
  by (simp add: small_detector_rest rest9_def)

lemma sample10_events:
  "filter is_event (snd (process_sample (1 / 5) (2 / 5) (- (3 / 5)) 180 rest9)) = []"
proof -
  have "reaches_switch (1 / 5) (2 / 5) (- (3 / 5)) rest9"
    by (simp add: reaches_switch_def rest9_fields burst1_acc small_config_fields burst1_lta_def
          Ring_full_def Ring_avg_def)
  then show ?thesis
    by (simp add: process_sample_switch telemetry_count engine_def burst1_filtered
          trigger_engine_def after_accumulate_frame rest9_fields)
qed

lemma run_trigger_stream:
  "fst (run trigger_stream small_detector) = burst2"
  "filter is_event (snd (run trigger_stream small_detector)) =
      [OnEvent
         \<lparr> level = CRITICAL, peak_g = (13073230969686435303 /
        10000000000000000000), sta_lta = (1630390 / 183039), freq_hz = (25 / 2), time_ms = 180,
        duration = 2 \<rparr>]"
  by (simp_all add: trigger_stream_def run_append run_rest9 split_beta burst1_step
        burst2_step sample10_events)

lemma burst3_fields:
  "m_cfg burst3 = small_config" "m_total burst3 = 12" "m_cd burst3 = 500"
  "m_st burst3 = IDLE" "m_on_dbg burst3 = True" "m_lta burst3 = burst3_lta"
  by (simp_all add: burst3_def burst2_fields)

text \<open>
  C1 as stated fails at the trigger edge. Eleven samples into a detector with the short
  windows: the eleventh emits the trigger event, and leaves the cooldown counter at 0 with
  \<open>cooldown = 500\<close>. The twelfth sample, well inside the 500 samples of the claimed
  cooldown, emits the de-trigger event and takes the state from \<open>TRIGGERED\<close> to \<open>IDLE\<close>.
\<close>

theorem C1_counterexample:
  "filter is_event (snd (run trigger_stream small_detector)) =
      [OnEvent
         \<lparr> level = CRITICAL, peak_g = (13073230969686435303 /
        10000000000000000000), sta_lta = (1630390 / 183039), freq_hz = (25 / 2), time_ms = 180,
        duration = 2 \<rparr>]
   \<and> m_st (fst (run trigger_stream small_detector)) = TRIGGERED
   \<and> m_cd (fst (run trigger_stream small_detector)) = 0
   \<and> cooldown (m_cfg (fst (run trigger_stream small_detector))) = 500
   \<and> snd (process_sample (18 / 5) (36 / 5) (31 / 5) 220
             (fst (run trigger_stream small_detector))) =
      [OnEvent
         \<lparr> level = CRITICAL, peak_g = (13073230969686435303 /
        10000000000000000000), sta_lta = (125050630 / 1232765063), freq_hz = (25 / 2), time_ms =
        180, duration = 3 \<rparr>]
   \<and> m_st (fst (process_sample (18 / 5) (36 / 5) (31 / 5) 220
                   (fst (run trigger_stream small_detector)))) = IDLE"
  by (simp add: run_trigger_stream burst2_fields small_config_fields burst3_step burst3_fields)

lemma run_cooldown_stream:
  "fst (run cooldown_stream small_detector) = burst3\<lparr> m_total := 19, m_cd := 493 \<rparr>"
proof -
  let ?T = "trigger_stream @ [(18 / 5, 36 / 5, 31 / 5, 220)]"
  have len: "length (resting 12 7) \<le> unat (m_cd burst3)"
    by (simp add: resting_def burst3_fields)
  have l7: "length (resting 12 7) = 7" by (simp add: resting_def)
  have a: "fst (run ?T small_detector) = burst3"
    by (simp add: run_append [of trigger_stream] run_trigger_stream burst3_step split_beta)
  have b: "run (resting 12 7) burst3 = (burst3\<lparr> m_total := 19, m_cd := 493 \<rparr>, [])"
    unfolding run_cooldown [OF len] l7 by (simp add: burst3_fields)
  have c: "cooldown_stream = ?T @ resting 12 7" by (simp add: cooldown_stream_def)
  have "fst (run cooldown_stream small_detector) = fst (run (resting 12 7) burst3)"
    unfolding c run_append [of ?T] fst_conv a ..
  with b show ?thesis by simp
qed

text \<open>
  C3 as stated fails in the cooldown. After the de-trigger edge of the short run the detector
  is in cooldown. On the 20th call the sample counter is 20, the LTA ring is full and a debug
  callback is provided, yet no callback is made.
\<close>

theorem C3_counterexample:
  "m_on_dbg (fst (run cooldown_stream small_detector))
   \<and> snd (process_sample 0 0 (- 1) 380 (fst (run cooldown_stream small_detector))) = []
   \<and> m_total (fst (process_sample 0 0 (- 1) 380 (fst (run cooldown_stream small_detector))))
       = 20
   \<and> (20 :: 64 word) mod 10 = 0
   \<and> Ring_full (m_lta (fst (process_sample 0 0 (- 1) 380
                              (fst (run cooldown_stream small_detector)))))"
proof -
  have cd: "m_cd (burst3\<lparr> m_total := 19, m_cd := 493 \<rparr>) \<noteq> 0" by simp
  show ?thesis
    unfolding run_cooldown_stream process_sample_cooldown [OF cd]
    by (simp add: burst3_fields burst3_lta_def Ring_full_def)
qed

theorem C3_debug_cadence_witness:
  "length (filter is_debug
     (snd (process_sample 0 0 (- 1) 9980 (quiet_state (SeismicDetector_new True True) 499))))
   = 1"
proof -
  have dbg: "m_on_dbg (quiet_state (SeismicDetector_new True True) 499)"
    by (simp add: quiet_state_frame new_fields)
  from C3_debug_cadence [OF dbg, of 0 0 "- 1" 9980] show ?thesis
    by (simp add: sample500)
qed

text \<open>
  A variant of sample 11 that keeps the sign of the first burst sample, \<open>(2, 4, 3)\<close> g: no zero
  crossing is counted, the frequency estimate is 0 Hz and the candidate is rejected.
\<close>

lemma after_accumulate_machine:
  "m_ap (after_accumulate ax ay az d) = m_ap d"
  "m_ae (after_accumulate ax ay az d) = m_ae d"
  "m_zc (after_accumulate ax ay az d) = m_zc d"
  "m_ps (after_accumulate ax ay az d) = m_ps d"
  "m_pk (after_accumulate ax ay az d) = m_pk d"
  by (simp_all add: after_accumulate_def accumulate_def filter_axes_def Let_def split_beta)

lemma rejected_filtered:
  "filtered 2 4 3 burst1 =
     (6333547768341454899 / 10000000000000000000,
      6333547768341454899 / 5000000000000000000,
      6333547768341454899 / 5000000000000000000)"
  by (simp add: filtered_def filter_defs burst1_fields small_config_fields
        burst1_grav_def burst1_bpx_def burst1_bpy_def burst1_hx_def burst1_hy_def)

lemma rejected_magnitude:
  "filtered_mag 2 4 3 burst1 = 19000643305024364697 / 10000000000000000000"
  by (simp add: filtered_mag_def rejected_filtered magnitude_122)

lemma rejected_candidate:
  "candidate 2 4 3 200 burst1 = Some (tracked 2 4 3 burst1)"
  "check_reject (tracked 2 4 3 burst1) = FREQUENCY"
proof -
  let ?A = "after_accumulate 2 4 3 burst1"
  have full: "Ring_full (m_lta ?A)" "\<not> Ring_avg (m_lta ?A) < min_amplitude_g (m_cfg burst1)"
    by (simp_all add: after_accumulate_frame rejected_magnitude burst1_fields
          small_config_fields burst1_lta_def Ring_push_def Ring_full_def Ring_avg_def)
  have rs: "reaches_switch 2 4 3 burst1"
    using full by (simp add: reaches_switch_def burst1_fields)
  have r: "sta_lta_ratio 2 4 3 burst1 = 2369610 / 256961"
    by (simp add: sta_lta_ratio_def after_accumulate_frame rejected_magnitude burst1_fields
          burst1_sta_def burst1_lta_def Ring_push_def Ring_avg_def)
  have thr: "adaptive_at ?A \<le> sta_lta_ratio 2 4 3 burst1"
    unfolding r
    by (rule adaptive_at_le)
       (simp_all add: after_accumulate_frame burst1_fields small_config_fields)
  show "candidate 2 4 3 200 burst1 = Some (tracked 2 4 3 burst1)"
    using rs thr by (simp add: candidate_eq burst1_fields small_config_fields)
  have m: "m_ap burst1 = (26728228562259 / 500000000000000, 26728228562259 / 250000000000000,
                          26728228562259 / 250000000000000)"
     "m_zc burst1 = 0" "m_ps burst1 = True"
    by (simp_all add: burst1_def)
  show "check_reject (tracked 2 4 3 burst1) = FREQUENCY"
    by (simp add: check_reject_def tracked_def rejected_filtered rejected_magnitude
          confirm_track_def split_beta after_accumulate_frame after_accumulate_sc
          after_accumulate_machine burst1_fields small_config_fields m Let_def dt_def
          max3_def min3_def)
qed

theorem C1_cooldown_after_detrigger_or_rejection_witness:
  "m_cd (fst (process_sample (18 / 5) (36 / 5) (31 / 5) 220 burst2)) = 500
   \<and> run [(0, 0, - 1, 240), (1, 1, 1, 260)]
         (fst (process_sample (18 / 5) (36 / 5) (31 / 5) 220 burst2)) =
       (burst3\<lparr> m_total := 14, m_cd := 498 \<rparr>, [])
   \<and> m_cd (fst (process_sample 2 4 3 200 burst1)) = 500
   \<and> run [(0, 0, - 1, 220), (1, 1, 1, 240)] (fst (process_sample 2 4 3 200 burst1)) =
       ((fst (process_sample 2 4 3 200 burst1))\<lparr> m_total := 13, m_cd := 498 \<rparr>, [])"
proof -
  have h1: "(m_st burst2 = TRIGGERED
            \<and> (m_st (fst (process_sample (18 / 5) (36 / 5) (31 / 5) 220 burst2)) \<noteq> TRIGGERED
               \<or> filter is_event (snd (process_sample (18 / 5) (36 / 5) (31 / 5) 220 burst2)) \<noteq> []))
           \<or> (candidate (18 / 5) (36 / 5) (31 / 5) 220 burst2 = Some burst2
               \<and> check_reject burst2 \<noteq> RC_NONE)"
    by (simp add: burst2_fields burst3_step burst3_fields)
  have h2: "length [(0 :: real, 0 :: real, - 1 :: real, 240 :: 64 word), (1, 1, 1, 260)]
              \<le> unat (cooldown (m_cfg burst2))"
    by (simp add: burst2_fields small_config_fields)
  have k1: "(m_st burst1 = TRIGGERED
            \<and> (m_st (fst (process_sample 2 4 3 200 burst1)) \<noteq> TRIGGERED
               \<or> filter is_event (snd (process_sample 2 4 3 200 burst1)) \<noteq> []))
           \<or> (candidate 2 4 3 200 burst1 = Some (tracked 2 4 3 burst1)
               \<and> check_reject (tracked 2 4 3 burst1) \<noteq> RC_NONE)"
    by (simp add: rejected_candidate)
  have k2: "length [(0 :: real, 0 :: real, - 1 :: real, 220 :: 64 word), (1, 1, 1, 240)]
              \<le> unat (cooldown (m_cfg burst1))"
    by (simp add: burst1_fields small_config_fields)
  from C1_cooldown_after_detrigger_or_rejection [OF h1 h2]
       C1_cooldown_after_detrigger_or_rejection [OF k1 k2]
  show ?thesis
    by (simp add: burst1_fields burst2_fields small_config_fields burst3_step)
qed

lemma burst2_check: "check_reject (tracked (- 2) (- 4) (- 5) burst1) = RC_NONE"
proof -
  have tr: "tracked (- 2) (- 4) (- 5) burst1 =
              burst1\<lparr> m_total := 11, m_grav := burst2_grav, m_bpx := burst2_bpx,
                 m_bpy := burst2_bpy, m_bpz := burst2_bpy,
                 m_hx := burst2_hx, m_hy := burst2_hy, m_hz := burst2_hy,
                 m_sta := burst2_sta, m_lta := burst2_lta,
                 m_cal := burst2_cal, m_per := burst2_per,
                 m_sc := 2, m_pk := m_pk burst2, m_ap := m_ap burst2, m_ae := m_ae burst2,
                 m_zc := 1, m_ps := False \<rparr>"
    by (simp add: tracked_def burst2_filtered burst2_magnitude confirm_track_def split_beta
          burst2_acc burst1_fields)
       (simp add: burst1_def burst2_def burst2_hx_def burst2_hy_def burst2_mag_def)
  show ?thesis
    unfolding tr
    by (simp add: check_reject_def burst1_fields small_config_fields Let_def dt_def
          Ring_full_def burst2_per_def)
       (simp add: burst2_def max3_def min3_def)
qed

theorem C6_rejection_cascade_witness:
  "candidate (- 2) (- 4) (- 5) 200 burst1 = Some (tracked (- 2) (- 4) (- 5) burst1)
   \<and> check_reject (tracked (- 2) (- 4) (- 5) burst1) = RC_NONE
   \<and> fst (process_sample (- 2) (- 4) (- 5) 200 burst1) =
       (tracked (- 2) (- 4) (- 5) burst1)\<lparr> m_st := TRIGGERED, m_dur := 2 \<rparr>
   \<and> candidate 2 4 3 200 burst1 = Some (tracked 2 4 3 burst1)
   \<and> check_reject (tracked 2 4 3 burst1) = FREQUENCY
   \<and> fst (process_sample 2 4 3 200 burst1) =
       (tracked 2 4 3 burst1)\<lparr> m_lr := FREQUENCY, m_st := IDLE, m_cd := 500 \<rparr>
   \<and> candidate 0 0 (- 1) 0 (SeismicDetector_new True True) = None
   \<and> m_lr (fst (process_sample 0 0 (- 1) 0 (SeismicDetector_new True True))) = RC_NONE"
proof -
  have a: "candidate (- 2) (- 4) (- 5) 200 burst1 = Some (tracked (- 2) (- 4) (- 5) burst1)"
  proof -
    have "Ring_full (m_lta (after_accumulate (- 2) (- 4) (- 5) burst1))"
      "\<not> Ring_avg (m_lta (after_accumulate (- 2) (- 4) (- 5) burst1))
           < min_amplitude_g (m_cfg burst1)"
      by (simp_all add: burst2_acc burst1_fields small_config_fields burst2_lta_def
            Ring_full_def Ring_avg_def)
    then have rs: "reaches_switch (- 2) (- 4) (- 5) burst1"
      by (simp add: reaches_switch_def burst1_fields)
    have r: "sta_lta_ratio (- 2) (- 4) (- 5) burst1 = 1630390 / 183039"
      by (simp add: sta_lta_ratio_def burst2_acc burst2_sta_def burst2_lta_def Ring_avg_def)
    have "adaptive_at (after_accumulate (- 2) (- 4) (- 5) burst1)
            \<le> sta_lta_ratio (- 2) (- 4) (- 5) burst1"
      unfolding r
      by (rule adaptive_at_le)
         (simp_all add: after_accumulate_frame burst1_fields small_config_fields)
    with rs show ?thesis by (simp add: candidate_eq burst1_fields small_config_fields)
  qed
  have n: "candidate 0 0 (- 1) 0 (SeismicDetector_new True True) = None"
    by (simp add: candidate_eq new_fields)
  note s1 = C6_rejection_cascade [of "- 2" "- 4" "- 5" 200 burst1
              "tracked (- 2) (- 4) (- 5) burst1", THEN conjunct1, rule_format, OF a]
  note s2 = C6_rejection_cascade [of 2 4 3 200 burst1 "tracked 2 4 3 burst1",
              THEN conjunct1, rule_format, OF rejected_candidate(1)]
  note s3 = C6_rejection_cascade [of 0 0 "- 1" 0 "SeismicDetector_new True True",
              THEN conjunct2, THEN conjunct1, rule_format, OF n]
  have sc: "m_sc (tracked (- 2) (- 4) (- 5) burst1) = 2"
    by (simp add: tracked_frame burst1_fields)
  from s1 s2 s3 show ?thesis
    using a n
    by (simp add: rejected_candidate burst2_check sc burst1_fields small_config_fields new_lr)
qed


section \<open>The periodicity check\<close>

subsection \<open>Autocorrelation of a ring that is quiet but for its two newest values\<close>






subsection \<open>The run to the boundary candidate\<close>























lemma run_reachable: "reachable d \<Longrightarrow> reachable (fst (run xs d))"
proof (induction xs arbitrary: d)
  case Nil
  then show ?case by simp
next
  case (Cons x xs)
  obtain ax ay az t where x: "x = (ax, ay, az, t)" by (cases x)
  from Cons.prems have "reachable (fst (process_sample ax ay az t d))"
    by (rule reachable_sample)
  from Cons.IH [OF this] show ?case by (simp add: x split_beta)
qed

lemma boundary_reachable: "reachable (fst (run boundary_stream (boundary_detector th)))"
  unfolding boundary_detector_def
  by (intro run_reachable reachable_update reachable_new)




end
